theory Spec2Isabelle
  imports Main
begin

section \<open>Text and regular expressions\<close>

text \<open>
  The program is JavaScript. Its strings are modelled as Isabelle strings whose
  characters are read as the code units U+0000 to U+00FF; text with other code units
  is outside the model. The program reads the project key by splicing
  \<open>process.env.JIRA_PROJECT_KEY\<close> into a text, at two moments. The table of safe
  templates is built when the module is loaded, before \<open>dotenv.config()\<close> has run: the
  text spliced there is the parameter \<open>loadKey\<close>. Every other read happens while a
  request is served: the text spliced there is the parameter \<open>key\<close>. Either text is
  \<open>undefined\<close> when the variable is not set at its moment, so the two differ when the
  key is given only in the file that \<open>dotenv.config()\<close> reads. Where the source splices
  the key into a regular expression it is taken as literal text, which is what it is for
  a key made of letters, digits and underscores.
\<close>

definition isSpace :: "char \<Rightarrow> bool" where
  \<comment> \<open>\<open>\s\<close>, and the characters \<open>trim()\<close> strips: TAB, LF, VT, FF, CR, SP, NBSP\<close>
  "isSpace c = (let n = (of_char c :: nat) in (9 \<le> n \<and> n \<le> 13) \<or> n = 32 \<or> n = 160)"

definition isDigit :: "char \<Rightarrow> bool" where
  \<comment> \<open>\<open>\d\<close>\<close>
  "isDigit c = (let n = (of_char c :: nat) in 48 \<le> n \<and> n \<le> 57)"

definition isWord :: "char \<Rightarrow> bool" where
  \<comment> \<open>\<open>\w\<close>: \<open>[A-Za-z0-9_]\<close>\<close>
  "isWord c = (let n = (of_char c :: nat) in
     (48 \<le> n \<and> n \<le> 57) \<or> (65 \<le> n \<and> n \<le> 90) \<or> n = 95 \<or> (97 \<le> n \<and> n \<le> 122))"

definition isLineEnd :: "char \<Rightarrow> bool" where
  \<comment> \<open>the line terminators that \<open>.\<close> does not match\<close>
  "isLineEnd c = (let n = (of_char c :: nat) in n = 10 \<or> n = 13)"

definition upperA :: "char \<Rightarrow> char" where
  \<comment> \<open>the canonical form of a character under the \<open>i\<close> flag, for ASCII patterns:
      a code unit from U+0080 on never equals an ASCII one\<close>
  "upperA c = (let n = (of_char c :: nat) in if 97 \<le> n \<and> n \<le> 122 then char_of (n - 32) else c)"

definition toLowerChar :: "char \<Rightarrow> char" where
  \<comment> \<open>\<open>toLowerCase()\<close> on one code unit below U+0100\<close>
  "toLowerChar c = (let n = (of_char c :: nat) in
     if (65 \<le> n \<and> n \<le> 90) \<or> (192 \<le> n \<and> n \<le> 214) \<or> (216 \<le> n \<and> n \<le> 222)
     then char_of (n + 32) else c)"

definition toLowerCase :: "string \<Rightarrow> string" where
  "toLowerCase s = map toLowerChar s"

definition trim :: "string \<Rightarrow> string" where
  "trim s = rev (dropWhile isSpace (rev (dropWhile isSpace s)))"

text \<open>Substring search, \<open>String.prototype.includes\<close>.\<close>

fun includesStr :: "string \<Rightarrow> string \<Rightarrow> bool" where
  "includesStr [] p = (p = [])"
| "includesStr (x # xs) p = (take (length p) (x # xs) = p \<or> includesStr xs p)"

datatype cset = CS string | Sp | Wd | Dg

fun inCset :: "cset \<Rightarrow> char \<Rightarrow> bool" where
  "inCset (CS cs) c = (c \<in> set cs)"
| "inCset Sp c = isSpace c"
| "inCset Wd c = isWord c"
| "inCset Dg c = isDigit c"

text \<open>
  The regular expressions of the source, as syntax trees. \<open>NotAhead r\<close> is \<open>(?!r)\<close>,
  \<open>NotBehind cs\<close> is \<open>(?<![cs])\<close>, \<open>WordB\<close> is \<open>\b\<close>, \<open>Bol\<close> and \<open>Eol\<close> are
  \<open>^\<close> and \<open>$\<close> (no \<open>m\<close> flag in the source), \<open>Star\<close> is the greedy \<open>*\<close>.
\<close>

datatype rx =
    Eps
  | Chr char
  | AnyChar
  | OneOf "cset list"
  | NoneOf "cset list"
  | Seq rx rx
  | Alt rx rx
  | Star rx
  | Bol
  | Eol
  | WordB
  | NotAhead rx
  | NotBehind "cset list"

definition Plus :: "rx \<Rightarrow> rx" where
  "Plus r = Seq r (Star r)"

definition Opt :: "rx \<Rightarrow> rx" where
  "Opt r = Alt r Eps"

fun Lit :: "string \<Rightarrow> rx" where
  "Lit [] = Eps"
| "Lit (c # cs) = Seq (Chr c) (Lit cs)"

fun Seqs :: "rx list \<Rightarrow> rx" where
  "Seqs [] = Eps"
| "Seqs [r] = r"
| "Seqs (r # rs) = Seq r (Seqs rs)"

fun Alts :: "rx list \<Rightarrow> rx" where
  "Alts [] = NoneOf []"
| "Alts [r] = r"
| "Alts (r # rs) = Alt r (Alts rs)"

definition Lits :: "string list \<Rightarrow> rx" where
  \<comment> \<open>an alternation of literal texts, \<open>a|b|c\<close>\<close>
  "Lits ws = Alts (map Lit ws)"

definition ceq :: "bool \<Rightarrow> char \<Rightarrow> char \<Rightarrow> bool" where
  "ceq ci a b = (if ci then upperA a = upperA b else a = b)"

definition wordBefore :: "string \<Rightarrow> bool" where
  \<comment> \<open>whether a text starts with a word character; the text before a position is held
      reversed, so for it this is the character just before the position\<close>
  "wordBefore pre = (case pre of [] \<Rightarrow> False | c # _ \<Rightarrow> isWord c)"

text \<open>
  A position in the subject is the pair of the text before it, reversed, and the text
  after it. \<open>ends ci r p\<close> lists the positions where a match of \<open>r\<close> that starts at \<open>p\<close>
  can end, in the order in which the backtracking matcher of the language tries them
  (\<open>ci\<close> is the \<open>i\<close> flag): the first is the match the matcher returns. An iteration of
  \<open>*\<close> that consumes nothing is not continued.
\<close>

function (sequential) ends :: "bool \<Rightarrow> rx \<Rightarrow> string \<times> string \<Rightarrow> (string \<times> string) list" where
  "ends ci Eps p = [p]"
| "ends ci (Chr c) (pre, rest) =
     (case rest of [] \<Rightarrow> [] | x # xs \<Rightarrow> if ceq ci c x then [(x # pre, xs)] else [])"
| "ends ci AnyChar (pre, rest) =
     (case rest of [] \<Rightarrow> [] | x # xs \<Rightarrow> if isLineEnd x then [] else [(x # pre, xs)])"
| "ends ci (OneOf cs) (pre, rest) =
     (case rest of [] \<Rightarrow> [] | x # xs \<Rightarrow> if list_ex (\<lambda>k. inCset k x) cs then [(x # pre, xs)] else [])"
| "ends ci (NoneOf cs) (pre, rest) =
     (case rest of [] \<Rightarrow> [] | x # xs \<Rightarrow> if list_ex (\<lambda>k. inCset k x) cs then [] else [(x # pre, xs)])"
| "ends ci (Seq a b) p = concat (map (ends ci b) (ends ci a p))"
| "ends ci (Alt a b) p = ends ci a p @ ends ci b p"
| "ends ci (Star a) p =
     concat (map (\<lambda>q. if length (snd q) < length (snd p) then ends ci (Star a) q else [])
                 (ends ci a p)) @ [p]"
| "ends ci Bol (pre, rest) = (if pre = [] then [(pre, rest)] else [])"
| "ends ci Eol (pre, rest) = (if rest = [] then [(pre, rest)] else [])"
| "ends ci WordB (pre, rest) =
     (if wordBefore pre \<noteq> wordBefore rest then [(pre, rest)] else [])"
| "ends ci (NotAhead a) p = (if ends ci a p = [] then [p] else [])"
| "ends ci (NotBehind cs) (pre, rest) =
     (case pre of [] \<Rightarrow> [(pre, rest)]
      | x # _ \<Rightarrow> if list_ex (\<lambda>k. inCset k x) cs then [] else [(pre, rest)])"
  by pat_completeness auto
termination
  by (relation "measures [\<lambda>(ci, r, p). size r, \<lambda>(ci, r, p). length (snd p)]") auto

lemmas ends_Star = ends.simps(8)

declare ends.simps(8) [simp del]

text \<open>
  \<open>search\<close> is the matcher's scan for the leftmost match: the position where the match
  starts and the position where it ends. \<open>test\<close> is \<open>RegExp.prototype.test\<close> and
  \<open>match0\<close> is element 0 of \<open>String.prototype.match\<close>, for a regular expression without
  the \<open>g\<close> flag.
\<close>

fun search :: "bool \<Rightarrow> rx \<Rightarrow> string \<Rightarrow> string \<Rightarrow> ((string \<times> string) \<times> (string \<times> string)) option" where
  "search ci r pre [] = (case ends ci r (pre, []) of [] \<Rightarrow> None | q # _ \<Rightarrow> Some ((pre, []), q))"
| "search ci r pre (x # xs) =
     (case ends ci r (pre, x # xs) of
        [] \<Rightarrow> search ci r (x # pre) xs
      | q # _ \<Rightarrow> Some ((pre, x # xs), q))"

definition test :: "bool \<Rightarrow> rx \<Rightarrow> string \<Rightarrow> bool" where
  "test ci r s = (search ci r [] s \<noteq> None)"

definition between :: "string \<times> string \<Rightarrow> string \<times> string \<Rightarrow> string" where
  \<comment> \<open>the text from position \<open>p\<close> to the later position \<open>q\<close>\<close>
  "between p q = take (length (snd p) - length (snd q)) (snd p)"

definition match0 :: "bool \<Rightarrow> rx \<Rightarrow> string \<Rightarrow> string option" where
  "match0 ci r s = (case search ci r [] s of None \<Rightarrow> None | Some (p, q) \<Rightarrow> Some (between p q))"

text \<open>
  \<open>String.prototype.replace\<close> with a regular expression that has the \<open>g\<close> flag. The
  matcher \<open>m\<close> gives, for a start position, the candidate matches in the matcher's order,
  each as the replacement text and the end position. After an empty match the scan
  moves on by one character.
\<close>

function replaceAll :: "(string \<times> string \<Rightarrow> (string \<times> string \<times> string) list) \<Rightarrow> string \<times> string \<Rightarrow> string" where
  "replaceAll m (pre, rest) =
     (case m (pre, rest) of
        [] \<Rightarrow> (case rest of [] \<Rightarrow> [] | x # xs \<Rightarrow> x # replaceAll m (x # pre, xs))
      | (out, q) # _ \<Rightarrow>
          if length (snd q) < length rest then out @ replaceAll m q
          else out @ (case rest of [] \<Rightarrow> [] | x # xs \<Rightarrow> x # replaceAll m (x # pre, xs)))"
  by pat_completeness auto
termination
  by (relation "measure (\<lambda>(m, p). length (snd p))") auto

declare replaceAll.simps [simp del]

definition whole :: "bool \<Rightarrow> rx \<Rightarrow> (string \<Rightarrow> string) \<Rightarrow> string \<times> string \<Rightarrow> (string \<times> string \<times> string) list" where
  \<comment> \<open>a replacement computed from the matched text\<close>
  "whole ci r f p = map (\<lambda>q. (f (between p q), q)) (ends ci r p)"

definition replace :: "bool \<Rightarrow> rx \<Rightarrow> string \<Rightarrow> string \<Rightarrow> string" where
  \<comment> \<open>\<open>s.replace(/r/g, out)\<close> for a replacement text without \<open>$\<close>\<close>
  "replace ci r out s = replaceAll (whole ci r (\<lambda>_. out)) ([], s)"

section \<open>The query sanitizer\<close>

definition commaOutside :: rx where
  \<comment> \<open>\<open>/,(?![^(]*\))/g\<close>\<close>
  \<open>commaOutside = Seq (Chr CHR '','') (NotAhead (Seq (Star (NoneOf [CS ''(''])) (Chr CHR '')'')))\<close>

definition fixCommas :: "string \<Rightarrow> string" where
  \<open>fixCommas s = replace False commaOutside '' AND '' s\<close>

definition addProject :: "string \<Rightarrow> string \<Rightarrow> string" where
  \<open>addProject key s =
     (if \<not> includesStr s (''project = "'' @ key @ ''"'') \<and> \<not> includesStr s (''project = '' @ key)
      then ''project = '' @ key @ '' AND ('' @ s @ '')''
      else s)\<close>

definition isEmptyRx :: rx where
  \<comment> \<open>\<open>/\s+is\s+empty\b/gi\<close>\<close>
  \<open>isEmptyRx = Seqs [Plus (OneOf [Sp]), Lit ''is'', Plus (OneOf [Sp]), Lit ''empty'', WordB]\<close>

definition isNotEmptyRx :: rx where
  \<comment> \<open>\<open>/\s+is\s+not\s+empty\b/gi\<close>\<close>
  \<open>isNotEmptyRx = Seqs [Plus (OneOf [Sp]), Lit ''is'', Plus (OneOf [Sp]), Lit ''not'',
                        Plus (OneOf [Sp]), Lit ''empty'', WordB]\<close>

definition fixEmpty :: "string \<Rightarrow> string" where
  \<open>fixEmpty s = replace True isNotEmptyRx '' is not EMPTY'' (replace True isEmptyRx '' is EMPTY'' s)\<close>

text \<open>
  \<open>/(\w+)\s*=\s*([^"'\s][^\s]*\s+[^\s"']*[^"'\s])/g\<close> with the replacement
  \<open>$1 = "$2"\<close>: the two groups and the text between them are matched in sequence,
  and the replacement is built from the two captured texts.
\<close>

definition fieldRx :: rx where
  \<open>fieldRx = Plus (OneOf [Wd])\<close>

definition equalsRx :: rx where
  \<open>equalsRx = Seqs [Star (OneOf [Sp]), Chr CHR ''='', Star (OneOf [Sp])]\<close>

definition valueRx :: rx where
  \<open>valueRx = Seqs [NoneOf [CS [CHR 0x22, CHR 0x27], Sp], Star (NoneOf [Sp]), Plus (OneOf [Sp]),
                   Star (NoneOf [Sp, CS [CHR 0x22, CHR 0x27]]), NoneOf [CS [CHR 0x22, CHR 0x27], Sp]]\<close>

definition fieldValue :: "string \<times> string \<Rightarrow> (string \<times> string \<times> string) list" where
  \<open>fieldValue p =
     concat (map (\<lambda>q1. concat (map (\<lambda>q2. map (\<lambda>q3.
        (between p q1 @ '' = "'' @ between q2 q3 @ ''"'', q3))
        (ends False valueRx q2)) (ends False equalsRx q1))) (ends False fieldRx p))\<close>

definition quoteValues :: "string \<Rightarrow> string" where
  "quoteValues s = replaceAll fieldValue ([], s)"

definition reservedWords :: "string list" where
  \<open>reservedWords = [''limit'', ''and'', ''or'', ''not'', ''empty'', ''null'', ''order'', ''by'', ''asc'', ''desc'']\<close>

definition reservedRx :: "string \<Rightarrow> rx" where
  \<comment> \<open>\<open>new RegExp(`\\b${word}\\b(?<!["'])`, "gi")\<close>\<close>
  \<open>reservedRx word = Seqs [WordB, Lit word, WordB, NotBehind [CS [CHR 0x22, CHR 0x27]]]\<close>

definition quoteReserved :: "string \<Rightarrow> string" where
  \<comment> \<open>the loop over \<open>reservedWords\<close>\<close>
  \<open>quoteReserved s = foldl (\<lambda>acc word. replace True (reservedRx word) (''"'' @ word @ ''"'') acc) s reservedWords\<close>

definition sanitizeJQL :: "string \<Rightarrow> string \<Rightarrow> string" where
  \<open>sanitizeJQL key jql =
     (if jql = [] then ''project = '' @ key
      else quoteReserved (quoteValues (fixEmpty (addProject key (fixCommas jql)))))\<close>

text \<open>
  The first step stated on the characters of the text, for comparison with the regular
  expression: a comma is kept exactly when, reading on from it, a closing parenthesis
  comes before any opening one.
\<close>

fun closesFirst :: "string \<Rightarrow> bool" where
  "closesFirst [] = False"
| "closesFirst (c # cs) = (if c = CHR '')'' then True else if c = CHR ''('' then False else closesFirst cs)"

fun commaSpec :: "string \<Rightarrow> string" where
  "commaSpec [] = []"
| "commaSpec (c # cs) =
     (if c = CHR '','' \<and> \<not> closesFirst cs then '' AND '' @ commaSpec cs else c # commaSpec cs)"

section \<open>Rich documents\<close>

text \<open>
  The values that reach \<open>extractTextFromADF\<close> are parsed JSON, or nothing at all. A
  number is kept as the two things the function can observe of it: whether it is
  different from zero, and the text that JavaScript prints for it. An object is the list
  of its own properties, each name once. \<open>getProp\<close> is the property read \<open>v.name\<close> for the names the
  function reads (\<open>text\<close>, \<open>content\<close>, \<open>type\<close>), which no prototype defines: it throws
  on \<open>null\<close> and \<open>undefined\<close>, and is \<open>undefined\<close> on any other value without the
  property.
\<close>

datatype jsval =
    Undefined
  | Null
  | Bool bool
  | Num bool string
  | Str string
  | Arr "jsval list"
  | Obj "(string \<times> jsval) list"

datatype error = TypeError

fun truthy :: "jsval \<Rightarrow> bool" where
  "truthy Undefined = False"
| "truthy Null = False"
| "truthy (Bool b) = b"
| "truthy (Num nonzero _) = nonzero"
| "truthy (Str s) = (s \<noteq> [])"
| "truthy (Arr _) = True"
| "truthy (Obj _) = True"

fun isArray :: "jsval \<Rightarrow> bool" where
  "isArray (Arr _) = True"
| "isArray _ = False"

fun getProp :: "jsval \<Rightarrow> string \<Rightarrow> error + jsval" where
  "getProp Undefined k = Inl TypeError"
| "getProp Null k = Inl TypeError"
| "getProp (Obj kvs) k = Inr (case map_of kvs k of None \<Rightarrow> Undefined | Some v \<Rightarrow> v)"
| "getProp _ k = Inr Undefined"

function showNat :: "nat \<Rightarrow> string" where
  "showNat n = (if n < 10 then [char_of (48 + n)] else showNat (n div 10) @ [char_of (48 + n mod 10)])"
  by pat_completeness auto
termination
  by (relation "measure id") auto

declare showNat.simps [simp del]

fun joinWith :: "string \<Rightarrow> string list \<Rightarrow> string" where
  "joinWith sep [] = []"
| "joinWith sep [x] = x"
| "joinWith sep (x # xs) = x @ sep @ joinWith sep xs"

text \<open>
  \<open>toStr\<close> is the conversion to a string that \<open>+\<close> and \<open>join\<close> apply to a value, and
  \<open>toStrs\<close> converts the elements of an array as \<open>join\<close> does, \<open>null\<close> and \<open>undefined\<close>
  to the empty string. An object is converted by the methods \<open>toString\<close> and \<open>valueOf\<close>
  that it has or inherits. An own property of parsed JSON is never a function, and the
  inherited \<open>valueOf\<close> returns the object itself: so an object with an own property
  \<open>toString\<close> has no method that gives a primitive value, and the conversion throws;
  any other object is converted by the inherited \<open>toString\<close>.
\<close>

fun toStr :: "jsval \<Rightarrow> error + string"
  and toStrs :: "jsval list \<Rightarrow> error + string list" where
  "toStr Undefined = Inr ''undefined''"
| "toStr Null = Inr ''null''"
| "toStr (Bool b) = Inr (if b then ''true'' else ''false'')"
| "toStr (Num _ printed) = Inr printed"
| "toStr (Str s) = Inr s"
| "toStr (Arr xs) = (case toStrs xs of Inl e \<Rightarrow> Inl e | Inr ts \<Rightarrow> Inr (joinWith '','' ts))"
| "toStr (Obj kvs) =
     (if map_of kvs ''toString'' \<noteq> None then Inl TypeError else Inr ''[object Object]'')"
| "toStrs [] = Inr []"
| "toStrs (x # xs) =
     (case (if x = Undefined \<or> x = Null then Inr [] else toStr x) of
        Inl e \<Rightarrow> Inl e
      | Inr t \<Rightarrow> (case toStrs xs of Inl e \<Rightarrow> Inl e | Inr ts \<Rightarrow> Inr (t # ts)))"

definition joinVals :: "jsval list \<Rightarrow> error + string" where
  \<comment> \<open>\<open>vs.join("")\<close>\<close>
  "joinVals vs = (case toStrs vs of Inl e \<Rightarrow> Inl e | Inr ts \<Rightarrow> Inr (concat ts))"

fun mapE :: "('a \<Rightarrow> error + 'b) \<Rightarrow> 'a list \<Rightarrow> error + 'b list" where
  "mapE f [] = Inr []"
| "mapE f (x # xs) =
     (case f x of Inl e \<Rightarrow> Inl e
      | Inr y \<Rightarrow> (case mapE f xs of Inl e \<Rightarrow> Inl e | Inr ys \<Rightarrow> Inr (y # ys)))"

text \<open>\<open>processNodes items\<close> is \<open>items.map(processNode)\<close>: it throws where an element does.\<close>

function processNode :: "jsval \<Rightarrow> error + jsval"
  and processNodes :: "jsval list \<Rightarrow> error + jsval list" where
  "processNode node =
     (case getProp node ''text'' of
        Inl e \<Rightarrow> Inl e
      | Inr t \<Rightarrow>
          if truthy t then Inr t
          else (case getProp node ''content'' of
                  Inl e \<Rightarrow> Inl e
                | Inr (Arr items) \<Rightarrow>
                    (case processNodes items of
                       Inl e \<Rightarrow> Inl e
                     | Inr vs \<Rightarrow> (case joinVals vs of Inl e \<Rightarrow> Inl e | Inr t \<Rightarrow> Inr (Str t)))
                | Inr _ \<Rightarrow> Inr (Str [])))"
| "processNodes [] = Inr []"
| "processNodes (x # xs) =
     (case processNode x of
        Inl e \<Rightarrow> Inl e
      | Inr y \<Rightarrow> (case processNodes xs of Inl e \<Rightarrow> Inl e | Inr ys \<Rightarrow> Inr (y # ys)))"
  by pat_completeness auto
termination
proof (relation "measure (\<lambda>a. case a of Inl node \<Rightarrow> 2 * size node | Inr xs \<Rightarrow> 2 * size_list size xs + 1)")
  fix node :: jsval and t c items
  assume c: "getProp node ''content'' = Inr c" "c = Arr items"
  have m: "map_of kvs k = Some v \<Longrightarrow> size v \<le> size_list (size_prod (\<lambda>_. 0) size) kvs"
    for kvs :: "(string \<times> jsval) list" and k v
    by (induction kvs) (auto split: if_splits)
  obtain kvs where n: "node = Obj kvs" and f: "map_of kvs ''content'' = Some (Arr items)"
    using c by (cases node) (auto split: option.splits)
  have "size (Arr items) < size node"
    using m[OF f] n by simp
  then show "(Inr items, Inl node) \<in>
      measure (\<lambda>a. case a of Inl node \<Rightarrow> 2 * size node | Inr xs \<Rightarrow> 2 * size_list size xs + 1)"
    by simp
qed auto

declare processNode.simps [simp del]

definition bullet :: string where
  \<comment> \<open>the character U+2022 of the output templates, which is beyond U+00FF: its UTF-8 bytes\<close>
  "bullet = [CHR 0xE2, CHR 0x80, CHR 0xA2]"

definition itemText :: "jsval \<Rightarrow> error + string" where
  \<comment> \<open>the body of the \<open>forEach\<close> over the items of a list block\<close>
  \<open>itemText item =
     (case getProp item ''type'' of
        Inl e \<Rightarrow> Inl e
      | Inr ty \<Rightarrow>
          if ty = Str ''listItem'' then
            (case getProp item ''content'' of
               Inl e \<Rightarrow> Inl e
             | Inr c \<Rightarrow>
                 if truthy c then
                   (case c of
                      Arr xs \<Rightarrow> (case processNodes xs of
                                   Inl e \<Rightarrow> Inl e
                                 | Inr vs \<Rightarrow>
                                     (case joinVals vs of
                                        Inl e \<Rightarrow> Inl e
                                      | Inr t \<Rightarrow> Inr (bullet @ '' '' @ t @ ''\<newline>'')))
                    | _ \<Rightarrow> Inl TypeError)
                 else Inr [])
          else Inr [])\<close>

definition blockText :: "jsval \<Rightarrow> error + string" where
  \<comment> \<open>the body of the loop over the top-level blocks: the text it appends\<close>
  \<open>blockText block =
     (case getProp block ''type'' of
        Inl e \<Rightarrow> Inl e
      | Inr ty \<Rightarrow>
          if ty = Str ''paragraph'' \<or> ty = Str ''text'' then
            (case processNode block of
               Inl e \<Rightarrow> Inl e
             | Inr v \<Rightarrow> (case toStr v of Inl e \<Rightarrow> Inl e | Inr t \<Rightarrow> Inr (t @ ''\<newline>'')))
          else (case getProp block ''content'' of
                  Inl e \<Rightarrow> Inl e
                | Inr c \<Rightarrow>
                    if ty = Str ''bulletList'' \<or> ty = Str ''orderedList'' then
                      (if truthy c then
                         (case c of
                            Arr items \<Rightarrow> (case mapE itemText items of
                                            Inl e \<Rightarrow> Inl e
                                          | Inr ts \<Rightarrow> Inr (concat ts))
                          | _ \<Rightarrow> Inl TypeError)
                       else Inr [])
                    else if truthy c then
                      (case c of
                         Arr items \<Rightarrow> (case processNodes items of
                                         Inl e \<Rightarrow> Inl e
                                       | Inr vs \<Rightarrow>
                                           (case joinVals vs of
                                              Inl e \<Rightarrow> Inl e
                                            | Inr t \<Rightarrow> Inr (t @ ''\<newline>'')))
                       | _ \<Rightarrow> Inl TypeError)
                    else Inr []))\<close>

definition extractTextFromADF :: "jsval \<Rightarrow> error + string" where
  \<open>extractTextFromADF adf =
     (if \<not> truthy adf then Inr []
      else (case getProp adf ''content'' of
              Inl e \<Rightarrow> Inl e
            | Inr c \<Rightarrow>
                if \<not> truthy c \<or> \<not> isArray c then Inr []
                else (case c of
                        Arr blocks \<Rightarrow> (case mapE blockText blocks of
                                         Inl e \<Rightarrow> Inl e
                                       | Inr ts \<Rightarrow> Inr (trim (concat ts)))
                      | _ \<Rightarrow> Inr [])))\<close>

section \<open>The query normalizer\<close>

definition ws :: rx where
  "ws = OneOf [Sp]"

definition digit :: rx where
  "digit = OneOf [Dg]"

definition keyRx :: "string \<Rightarrow> rx" where
  \<comment> \<open>\<open>new RegExp(`${process.env.JIRA_PROJECT_KEY}-\\d+`, "i")\<close>\<close>
  \<open>keyRx key = Seqs [Lit key, Chr CHR ''-'', Plus digit]\<close>

text \<open>
  The table \<open>queryMappings\<close>, in the source's order; every entry has the \<open>i\<close> flag. The
  last entry maps to the query itself, trimmed and in lower case.
\<close>

definition queryMappings :: "string \<Rightarrow> string \<Rightarrow> (rx \<times> string) list" where
  \<open>queryMappings key query =
   [(Seqs [Bol, Lits [''how is'', ''how's'', ''what's'', ''what is''], Lit '' '', Opt (Lit ''the ''),
           Lit ''project'', Opt (Lit [CHR 0x27, CHR ''s'']), Lit '' '',
           Lits [''status'', ''progress'', ''going'', ''health'']],
     ''show project status''),
    (Seqs [Bol, Lits [''give me'', ''show'', ''display''], Lit '' '', Opt (Lits [''the '', ''a '']),
           Lits [''project'', ''overall''], Lit '' '',
           Lits [''status'', ''overview'', ''summary'', ''health'']],
     ''show project status''),
    (Seqs [Bol, Lits [''project'', ''status''], Lit '' '', Lits [''overview'', ''health'', ''summary'']],
     ''show project status''),
    (Lits [''timeline'', ''schedule'', ''roadmap'', ''plan'', ''calendar'', ''deadlines''],
     ''show project timeline''),
    (Seqs [Lit ''what'', Opt (Lits [[CHR 0x27, CHR ''s''], '' is'']), Lit '' '',
           Lits [''coming up'', ''planned'', ''scheduled'', ''due'']],
     ''show upcoming deadlines''),
    (Seqs [Lit ''what'', Opt (Lits [[CHR 0x27, CHR ''s''], '' is'']), Lit '' due '',
           Lits [''this'', ''next''], Lit '' '', Lits [''week'', ''month'']],
     ''show upcoming deadlines''),
    (Seqs [Lit ''when '', Lits [''will'', ''is'', ''are''], Lit '' '', Star AnyChar, Lit '' '',
           Lits [''due'', ''finish'', ''complete'', ''done'']],
     ''show project timeline''),
    (Seqs [Lit ''what'', Lits [[CHR 0x27, CHR ''s''], '' is''], Lit '' '', Opt (Lits [''the '', ''our '']),
           Lit ''schedule''],
     ''show project timeline''),
    (Lits [''blocker'', ''blocking issue'', ''impediment'', ''what's blocking'', ''what is blocking''],
     ''show project blockers''),
    (Seqs [Lit ''what'', Opt (Lits [[CHR 0x27, CHR ''s''], '' is'']), Lit '' '',
           Lits [''preventing'', ''stopping'', ''holding up'']],
     ''show project blockers''),
    (Lits [''risk'', ''risks'', ''at risk'', ''critical issue''],
     ''show high risk items''),
    (Seqs [Lit ''who'', Lits [[CHR 0x27, CHR ''s''], '' is''], Lit '' '',
           Lits [''working on'', ''assigned to'', ''responsible for'']],
     ''show team workload''),
    (Seqs [Lit ''what'', Lits [[CHR 0x27, CHR ''s''], '' is''], Lit '' '',
           Lits [''everyone'', ''everybody'', ''the team''], Lit '' working on''],
     ''show team workload''),
    (Lits [''workload'', ''bandwidth'', ''capacity'', ''allocation''],
     ''show team workload''),
    (Seqs [Lit ''who'', Lits [[CHR 0x27, CHR ''s''], '' is''], Lit '' '',
           Lits [''overloaded'', ''busy'', ''free'', ''available'']],
     ''show team workload''),
    (Seqs [Lits [''show'', ''list'', ''find'', ''get''], Lit '' '', Opt (Lits [''all '', ''the '', []]),
           Lits [''open'', ''active'', ''current''], Lit '' '', Lits [''tasks'', ''issues'', ''tickets'']],
     ''show open tasks''),
    (Seqs [Lits [''show'', ''list'', ''find'', ''get''], Lit '' '', Opt (Lits [''all '', ''the '', []]),
           Lits [''closed'', ''completed'', ''done'', ''resolved''], Lit '' '',
           Lits [''tasks'', ''issues'', ''tickets'']],
     ''show closed tasks''),
    (Seqs [Lits [''show'', ''list'', ''find'', ''get''], Lit '' '', Opt (Lits [''all '', ''the '', []]),
           Lits [''high priority'', ''important'', ''critical''], Lit '' '',
           Lits [''tasks'', ''issues'', ''tickets'']],
     ''show high priority tasks''),
    (Seqs [Lits [''show'', ''list'', ''find'', ''get''], Lit '' '', Opt (Lits [''all '', ''the '', []]),
           Lits [''unassigned'', ''without assignee''], Lit '' '',
           Lits [''tasks'', ''issues'', ''tickets'']],
     ''show unassigned tasks''),
    (Lits [''recent'', ''latest'', ''last'', ''newest'', ''what's new'', ''what is new''],
     ''show recent updates''),
    (Seqs [Lit ''what'', Lits [[CHR 0x27, CHR ''s''], '' has''], Lit '' changed''],
     ''show recent updates''),
    (Seqs [Lit ''what'', Lits [[CHR 0x27, CHR ''s''], '' has''], Lit '' happened''],
     ''show recent updates''),
    (Seqs [Lits [''current'', ''active'', ''ongoing''], Lit '' sprint''],
     ''show current sprint''),
    (Lit ''sprint status'',
     ''show current sprint''),
    (Seqs [Lits [''sprint'', ''iteration''], Lit '' progress''],
     ''show current sprint''),
    (Seqs [Lits [''latest'', ''most recent'', ''last''], Lit '' '',
           Lits [''edited'', ''updated'', ''modified'', ''changed''], Lit '' '',
           Lits [''task'', ''issue'', ''ticket'']],
     ''show most recently updated task''),
    (Seqs [Lits [''show'', ''tell me about'', ''what is'', ''details for'', ''info on''], Plus ws, keyRx key],
     query)]\<close>

definition punctuation :: rx where
  \<comment> \<open>\<open>/[.,!?;]/g\<close>\<close>
  \<open>punctuation = OneOf [CS ''.,!?;'']\<close>

definition standardize :: "string \<Rightarrow> string \<Rightarrow> string option" where
  \<comment> \<open>the loop over \<open>queryMappings\<close>: the standardized form of the first entry that matches\<close>
  \<open>standardize key query =
     map_option snd (find (\<lambda>mapping. test True (fst mapping) query) (queryMappings key query))\<close>

definition preprocessQuery :: "string \<Rightarrow> string \<Rightarrow> string" where
  \<open>preprocessQuery key query0 =
     (let query = toLowerCase (trim query0) in
      case standardize key query of
        Some standardized \<Rightarrow> standardized
      | None \<Rightarrow> trim (replace False punctuation [] query))\<close>

section \<open>Safe templates and the intent classifier\<close>

text \<open>
  The table \<open>safeJqlTemplates\<close>. It is a constant of the module, built from the project
  key as it is when the module is loaded.
\<close>

definition PROJECT_STATUS :: "string \<Rightarrow> string" where
  \<open>PROJECT_STATUS loadKey = ''project = '' @ loadKey @ '' ORDER BY updated DESC''\<close>

definition TIMELINE :: "string \<Rightarrow> string" where
  \<open>TIMELINE loadKey = ''project = '' @ loadKey @ '' AND duedate IS NOT EMPTY ORDER BY duedate ASC''\<close>

definition TIMELINE_UPCOMING :: "string \<Rightarrow> string" where
  \<open>TIMELINE_UPCOMING loadKey = ''project = '' @ loadKey @ '' AND duedate >= now() ORDER BY duedate ASC''\<close>

definition TIMELINE_OVERDUE :: "string \<Rightarrow> string" where
  \<open>TIMELINE_OVERDUE loadKey = ''project = '' @ loadKey @ '' AND duedate < now() AND status != "Done" ORDER BY duedate ASC''\<close>

definition BLOCKERS :: "string \<Rightarrow> string" where
  \<open>BLOCKERS loadKey = ''project = '' @ loadKey @
     '' AND (priority in ("High", "Highest") OR status = "Blocked" OR labels = "blocker") AND status not in ("Done", "Closed", "Resolved")''\<close>

definition HIGH_PRIORITY :: "string \<Rightarrow> string" where
  \<open>HIGH_PRIORITY loadKey = ''project = '' @ loadKey @
     '' AND priority in ("High", "Highest") AND status not in ("Done", "Closed", "Resolved")''\<close>

definition OPEN_TASKS :: "string \<Rightarrow> string" where
  \<open>OPEN_TASKS loadKey = ''project = '' @ loadKey @ '' AND status in ("Open", "In Progress", "To Do", "Reopened")''\<close>

definition CLOSED_TASKS :: "string \<Rightarrow> string" where
  \<open>CLOSED_TASKS loadKey = ''project = '' @ loadKey @ '' AND status in ("Done", "Closed", "Resolved")''\<close>

definition ASSIGNED_TASKS :: "string \<Rightarrow> string" where
  \<open>ASSIGNED_TASKS loadKey = ''project = '' @ loadKey @
     '' AND assignee IS NOT EMPTY AND status not in ("Done", "Closed", "Resolved")''\<close>

definition UNASSIGNED_TASKS :: "string \<Rightarrow> string" where
  \<open>UNASSIGNED_TASKS loadKey = ''project = '' @ loadKey @
     '' AND assignee IS EMPTY AND status not in ("Done", "Closed", "Resolved")''\<close>

definition RECENT_UPDATES :: "string \<Rightarrow> string" where
  \<open>RECENT_UPDATES loadKey = ''project = '' @ loadKey @ '' ORDER BY updated DESC''\<close>

definition CURRENT_SPRINT :: "string \<Rightarrow> string" where
  \<open>CURRENT_SPRINT loadKey = ''project = '' @ loadKey @ '' AND sprint in openSprints()''\<close>

definition MOST_RECENT_TASK :: "string \<Rightarrow> string" where
  \<open>MOST_RECENT_TASK loadKey = ''project = '' @ loadKey @ '' ORDER BY updated DESC''\<close>

text \<open>The closed enumeration of intents; in the program an intent is a string.\<close>

definition intentNames :: "string list" where
  \<open>intentNames = [''PROJECT_STATUS'', ''TASK_LIST'', ''ASSIGNED_TASKS'', ''TASK_DETAILS'', ''BLOCKERS'',
                   ''TIMELINE'', ''COMMENTS'', ''WORKLOAD'', ''SPRINT'', ''GREETING'', ''CONVERSATION'',
                   ''GENERAL'']\<close>

definition simpleLookupRx :: rx where
  \<comment> \<open>\<open>/^(?:show|tell|get|what is|about) ${process.env.JIRA_PROJECT_KEY}-\d+$/i\<close>: a regular
      expression literal, so \<open>$\<close> is the end of the input and the braces and the name are
      literal text\<close>
  \<open>simpleLookupRx = Seqs [Bol, Lits [''show'', ''tell'', ''get'', ''what is'', ''about''], Lit '' '', Eol,
                          Lit ''{process'', AnyChar, Lit ''env'', AnyChar, Lit ''JIRA_PROJECT_KEY}-'',
                          Plus digit, Eol]\<close>

definition timelineWords :: rx where
  \<open>timelineWords = Alts [Lit ''timeline'', Lit ''roadmap'', Lit ''schedule'', Lit ''deadline'', Lit ''due date'',
                         Seqs [Lit ''what'', Star AnyChar, Lit '' due''], Lit ''calendar'', Lit ''when'']\<close>

definition assignWords :: rx where
  \<open>assignWords = Lits [''assign'', ''working on'', ''responsible'', ''owner'', ''who is'', ''who's'']\<close>

definition commentWords :: rx where
  \<open>commentWords = Lits [''comment'', ''said'', ''mentioned'', ''update'', ''notes'']\<close>

text \<open>
  The classifier has three parts. \<open>directIntent\<close> is the chain of rules at its head,
  each of which returns at once: \<open>None\<close> when no rule applies. \<open>fallbackKeywords\<close> is the
  chain of tests in the \<open>catch\<close> block, in order, each with the intent it returns, and
  \<open>keywordIntent\<close> is that block. \<open>reply\<close> is what the call of the generative model gives:
  \<open>None\<close> when the call, or the read of \<open>response.choices[0].message.content.trim()\<close>,
  throws, and the content otherwise.
\<close>

definition directIntent :: "string \<Rightarrow> string \<Rightarrow> string option" where
  \<open>directIntent key query =
     (if test True (Lits [''sprint'', ''current sprint'', ''active sprint'', ''sprint status'', ''sprint board'']) query
      then Some ''SPRINT''
      else if test True (Seq Bol (Lits [''hi'', ''hello'', ''hey'', ''hi there'', ''greetings'', ''how are you'',
                             ''what can you do'', ''what do you do'', ''help me'', ''how do you work''])) (trim query)
      then Some ''GREETING''
      else if test True (keyRx key) query \<and> test True simpleLookupRx (trim query)
      then Some ''TASK_DETAILS''
      else if test True (Alts [Seqs [Lit ''project'', Star AnyChar, Lit '' status''],
                               Seqs [Lit ''status'', Star AnyChar, Lit '' project''],
                               Seqs [Lit ''how'', Star AnyChar, Lit '' project''],
                               Seqs [Lit ''project'', Star AnyChar, Lit '' health''],
                               Seqs [Lit ''project'', Star AnyChar, Lit '' overview'']]) query
      then Some ''PROJECT_STATUS''
      else if test True timelineWords query
      then Some ''TIMELINE''
      else if test True (Lits [''block'', ''blocker'', ''blocking'', ''stuck'', ''impediment'', ''obstacle'',
                               ''risk'', ''critical'', ''prevent'']) query
      then Some ''BLOCKERS''
      else if test True (Alts [Lit ''workload'', Lit ''capacity'', Lit ''bandwidth'', Lit ''overloaded'', Lit ''busy'',
                               Seqs [Lit ''who'', Star AnyChar, Lit ''working''],
                               Seqs [Lit ''team'', Star AnyChar, Lit '' work'']]) query
      then Some ''WORKLOAD''
      else if test True assignWords query
      then Some ''ASSIGNED_TASKS''
      else if test True (Lits [''list'', ''show'', ''find'', ''search'', ''get'', ''all'', ''open'', ''closed'', ''high'']) query
              \<and> test True (Lits [''task'', ''issue'', ''ticket'']) query
      then Some ''TASK_LIST''
      else if test True commentWords query
      then Some ''COMMENTS''
      else None)\<close>

definition fallbackKeywords :: "(rx \<times> string) list" where
  \<open>fallbackKeywords =
    [(timelineWords, ''TIMELINE''),
     (Lits [''block'', ''blocker'', ''blocking'', ''stuck'', ''impediment'', ''obstacle'', ''risk'', ''critical''],
      ''BLOCKERS''),
     (assignWords, ''ASSIGNED_TASKS''),
     (Lits [''status'', ''progress'', ''update'', ''how is'', ''how's'', ''overview''], ''PROJECT_STATUS''),
     (Lits [''list'', ''show'', ''find'', ''search'', ''get'', ''all''], ''TASK_LIST''),
     (commentWords, ''COMMENTS''),
     (Lits [''workload'', ''capacity'', ''bandwidth'', ''overloaded'', ''busy''], ''WORKLOAD''),
     (Lit ''sprint'', ''SPRINT'')]\<close>

definition keywordIntent :: "string \<Rightarrow> string" where
  \<open>keywordIntent query =
     (case find (\<lambda>rule. test True (fst rule) query) fallbackKeywords of
        Some rule \<Rightarrow> snd rule
      | None \<Rightarrow> ''GENERAL'')\<close>

definition analyzeQueryIntent :: "string \<Rightarrow> string option \<Rightarrow> string \<Rightarrow> string" where
  \<open>analyzeQueryIntent key reply query =
     (case directIntent key query of
        Some intent \<Rightarrow> intent
      | None \<Rightarrow>
          (case reply of
             Some content \<Rightarrow> trim content
           | None \<Rightarrow> keywordIntent query))\<close>

section \<open>The structured-query synthesizer\<close>

definition fallbackGenerateJQL :: "string \<Rightarrow> string \<Rightarrow> string \<Rightarrow> string" where
  \<open>fallbackGenerateJQL loadKey query0 intent =
     (let query = toLowerCase query0 in
      if intent = ''PROJECT_STATUS'' then PROJECT_STATUS loadKey
      else if intent = ''TIMELINE'' then TIMELINE loadKey
      else if intent = ''BLOCKERS'' then BLOCKERS loadKey
      else if intent = ''TASK_LIST'' \<and> test True (Lits [''open'', ''active'', ''current'']) query then OPEN_TASKS loadKey
      else if intent = ''TASK_LIST'' \<and> test True (Lits [''closed'', ''completed'', ''done'', ''resolved'']) query
      then CLOSED_TASKS loadKey
      else if intent = ''TASK_LIST'' \<and> test True (Lits [''high'', ''important'', ''critical'', ''priority'']) query
      then HIGH_PRIORITY loadKey
      else if intent = ''TASK_LIST'' \<and> test True (Lits [''unassigned'', ''without assignee'']) query
      then UNASSIGNED_TASKS loadKey
      else if intent = ''ASSIGNED_TASKS'' then ASSIGNED_TASKS loadKey
      else if intent = ''SPRINT'' then CURRENT_SPRINT loadKey
      else if intent = ''WORKLOAD'' then ASSIGNED_TASKS loadKey
      else if test True (Lits [''timeline'', ''deadline'', ''due'', ''schedule'']) query then TIMELINE loadKey
      else if test True (Lits [''blocker'', ''blocking'', ''impediment'', ''risk'']) query then BLOCKERS loadKey
      else if test True (Lits [''high'', ''priority'', ''important'', ''urgent'', ''critical'']) query
      then HIGH_PRIORITY loadKey
      else if test True (Lits [''open'', ''active'', ''current'']) query
              \<and> test True (Lits [''task'', ''issue'', ''ticket'']) query then OPEN_TASKS loadKey
      else if test True (Lits [''closed'', ''completed'', ''done'', ''resolved'']) query then CLOSED_TASKS loadKey
      else if test True (Lits [''assign'', ''work'', ''responsible'']) query then ASSIGNED_TASKS loadKey
      else if test True (Lits [''recent'', ''latest'', ''new'', ''update'']) query then RECENT_UPDATES loadKey
      else if test True (Lit ''sprint'') query then CURRENT_SPRINT loadKey
      else PROJECT_STATUS loadKey)\<close>

definition exactKeyRx :: "string \<Rightarrow> rx" where
  \<comment> \<open>\<open>new RegExp(`^\\s*${process.env.JIRA_PROJECT_KEY}-\\d+\\s*$`, "i")\<close>\<close>
  \<open>exactKeyRx key = Seqs [Bol, Star ws, Lit key, Chr CHR ''-'', Plus digit, Star ws, Eol]\<close>

definition keyEquals :: "string \<Rightarrow> string" where
  \<comment> \<open>\<open>`key = "${issueKey}"`\<close>\<close>
  \<open>keyEquals issueKey = ''key = "'' @ issueKey @ ''"''\<close>

text \<open>
  \<open>reply\<close> is the outcome of the generative call as for the classifier. Every throw in
  the body is caught and answered by \<open>fallbackGenerateJQL\<close>.
\<close>

definition generateJQL :: "string \<Rightarrow> string \<Rightarrow> string option \<Rightarrow> string \<Rightarrow> string \<Rightarrow> string" where
  \<open>generateJQL loadKey key reply query intent =
     (if query = ''show project status'' then PROJECT_STATUS loadKey
      else if query = ''show project timeline'' then TIMELINE loadKey
      else if query = ''show upcoming deadlines'' then TIMELINE_UPCOMING loadKey
      else if query = ''show project blockers'' then BLOCKERS loadKey
      else if query = ''show high risk items'' then HIGH_PRIORITY loadKey
      else if query = ''show team workload'' then ASSIGNED_TASKS loadKey
      else if query = ''show open tasks'' then OPEN_TASKS loadKey
      else if query = ''show closed tasks'' then CLOSED_TASKS loadKey
      else if query = ''show high priority tasks'' then HIGH_PRIORITY loadKey
      else if query = ''show unassigned tasks'' then UNASSIGNED_TASKS loadKey
      else if query = ''show recent updates'' then RECENT_UPDATES loadKey
      else if query = ''show current sprint'' then CURRENT_SPRINT loadKey
      else if query = ''show most recently updated task'' then MOST_RECENT_TASK loadKey
      else if test True (exactKeyRx key) query then keyEquals (trim query)
      else (case match0 True (keyRx key) query of
              Some issueKey \<Rightarrow> keyEquals issueKey
            | None \<Rightarrow>
                if intent = ''CONVERSATION'' \<or> intent = ''GREETING'' then RECENT_UPDATES loadKey
                else if intent = ''SPRINT'' then CURRENT_SPRINT loadKey
                else if intent = ''PROJECT_STATUS'' then PROJECT_STATUS loadKey
                else if test True (Lits [''recent'', ''latest'', ''most recent'', ''last'', ''newest'']) query
                        \<and> test True (Lits [''edited'', ''updated'', ''modified'', ''changed'', ''task'']) query
                then MOST_RECENT_TASK loadKey
                else (case reply of
                        Some content \<Rightarrow> sanitizeJQL key (trim content)
                      | None \<Rightarrow> fallbackGenerateJQL loadKey query intent)))\<close>

section \<open>The query endpoint\<close>

text \<open>
  An issue record of the remote search, with the attributes the endpoint reads:
  \<open>issue.key\<close>, \<open>issue.fields.summary\<close>, \<open>issue.fields.status?.name\<close> and
  \<open>issue.fields.assignee?.displayName\<close>. The outcome of a search call is a throw of
  the HTTP client or the response's data, whose \<open>issues\<close> array may be missing.
\<close>

record issue =
  ikey :: string
  summary :: string
  statusName :: "string option"
  assigneeName :: "string option"

datatype searchResult = SearchFailed | SearchData "issue list option"

record session =
  queries :: "string list"
  intents :: "string list"
  lastResponse :: "string option"
  noteText :: "string option"

record request =
  body_query :: string
  body_sessionId :: "string option"

record response =
  status :: nat
  message :: string
  rawData :: "issue list option option"

datatype sprintOutcome = SprintReply string | SprintFallbackReply string | SprintError

text \<open>
  What one request gets from outside the endpoint's own control flow: the replies of
  the generative model, the outcomes of the remote searches at the four call sites, the
  value drawn by \<open>Math.random\<close>, and the outcomes of the views that format dates and call
  the remote services themselves. \<open>mostRecentTask\<close>, \<open>statusOverview\<close>,
  \<open>projectTimeline\<close> and \<open>teamWorkload\<close> stand for \<open>getMostRecentTaskDetails\<close>,
  \<open>getProjectStatusOverview\<close>, \<open>getProjectTimeline\<close> and \<open>getTeamWorkload\<close>: each
  catches every throw and either sends one reply with \<open>res.json\<close> and stores it as the last
  response (\<open>Some\<close>), or returns \<open>null\<close> (\<open>None\<close>). \<open>sprintView\<close> and \<open>issueView\<close> are
  the sprint block and the single-issue block of the endpoint, which either reply or
  catch their failure and fall through; the sprint block does not store the reply of its
  fallback. \<open>renderer\<close> is \<open>generateResponse\<close> past its first guard, \<open>None\<close> when it throws.
  Of a reply the model keeps the status, the message and the raw data of the main path;
  the raw data and the \<open>meta\<close> field that the views attach to their replies are left out.
\<close>

record env =
  classifyReply :: "string option"
  synthReply :: "string option"
  mostRecentTask :: "string option"
  statusOverview :: "string option"
  projectTimeline :: "string option"
  teamWorkload :: "string option"
  sprintView :: sprintOutcome
  issueView :: "string option"
  recentSearch :: searchResult
  renderer :: "string \<Rightarrow> issue list \<Rightarrow> string \<Rightarrow> string option"
  firstSearch :: "string \<Rightarrow> nat \<Rightarrow> string \<Rightarrow> searchResult"
  retrySearch :: "string \<Rightarrow> nat \<Rightarrow> string \<Rightarrow> searchResult"
  basicSearch :: searchResult
  draw :: nat

text \<open>
  \<open>conversationMemory\<close> is a plain object: a read of a property it does not own finds
  what \<open>Object.prototype\<close> defines under that name.
\<close>

definition objectPrototypeNames :: "string list" where
  \<open>objectPrototypeNames = [''constructor'', ''__defineGetter__'', ''__defineSetter__'', ''hasOwnProperty'',
     ''__lookupGetter__'', ''__lookupSetter__'', ''isPrototypeOf'', ''propertyIsEnumerable'', ''toString'',
     ''valueOf'', ''__proto__'', ''toLocaleString'']\<close>

datatype slot = Own session | Inherited | Absent

definition lookupSession :: "(string \<rightharpoonup> session) \<Rightarrow> string \<Rightarrow> slot" where
  "lookupSession mem sid =
     (case mem sid of
        Some s \<Rightarrow> Own s
      | None \<Rightarrow> if sid \<in> set objectPrototypeNames then Inherited else Absent)"

definition emptySession :: session where
  "emptySession = \<lparr>queries = [], intents = [], lastResponse = None, noteText = None\<rparr>"

definition pushHistory :: "string list \<Rightarrow> string \<Rightarrow> string list" where
  \<comment> \<open>\<open>push\<close>, then \<open>shift\<close> when the length is above 10\<close>
  "pushHistory xs x = (let ys = xs @ [x] in if length ys > 10 then tl ys else ys)"

definition pick :: "string list \<Rightarrow> nat \<Rightarrow> string" where
  \<comment> \<open>\<open>pool[Math.floor(Math.random() * pool.length)]\<close>, an index below the length\<close>
  "pick pool d = pool ! (d mod length pool)"

definition orElse :: "string option \<Rightarrow> string \<Rightarrow> string" where
  \<comment> \<open>\<open>v || d\<close> for an optional text\<close>
  "orElse v d = (case v of None \<Rightarrow> d | Some s \<Rightarrow> if s = [] then d else s)"

definition greetingResponses :: "string list" where
  \<open>greetingResponses =
    [''Hi there! I'm your Jira assistant. I can help you with:\<newline>\<newline>'' @ bullet
       @ '' Finding tasks and issues\<newline>'' @ bullet
       @ '' Checking project status\<newline>'' @ bullet
       @ '' Understanding who's working on what\<newline>'' @ bullet
       @ '' Tracking blockers and high-priority items\<newline>'' @ bullet
       @ '' Monitoring deadlines and timelines\<newline>\<newline>Just ask me a question about your Jira project!'',
     ''Hello! I'm here to help you navigate your Jira project. You can ask me about:\<newline>\<newline>'' @ bullet
       @ '' Open and closed tasks\<newline>'' @ bullet
       @ '' Task assignments and ownership\<newline>'' @ bullet
       @ '' Project timelines and deadlines\<newline>'' @ bullet
       @ '' High priority issues and blockers\<newline>'' @ bullet
       @ '' Recent updates and changes\<newline>\<newline>What would you like to know about your project today?'',
     ''Hey! I'm your Jira chatbot assistant. Some things you can ask me:\<newline>\<newline>'' @ bullet
       @ '' "What's the status of our project?"\<newline>'' @ bullet
       @ '' "Show me open bugs assigned to Sarah"\<newline>'' @ bullet
       @ '' "Any blockers in the current sprint?"\<newline>'' @ bullet
       @ '' "Tell me about NIHK-123"\<newline>'' @ bullet
       @ '' "What's due this week?"\<newline>\<newline>How can I help you today?'']\<close>

definition conversationalResponses :: "string list" where
  \<open>conversationalResponses =
    [''I'm here to help with your Jira project. Could you ask me something specific about your tasks or project status?'',
     ''I'd be happy to help you with your Jira project. What would you like to know about your issues or project?'',
     ''I can provide information about your Jira tasks, assignments, deadlines, and more. What are you looking for?'',
     ''I'm your Jira assistant. I can tell you about task status, assignments, priorities, and more. What would you like to know?'']\<close>

definition relevantInfo :: "string list" where
  \<open>relevantInfo =
    [''I couldn't find exactly what you were looking for, but here are some recent items that might be helpful:'',
     ''Let me show you some recent activity in the project that might be relevant:'',
     ''While I couldn't answer your specific question, here are some recent updates in the project:'',
     ''I found some recent project activity that might interest you:'']\<close>

definition friendlyResponses :: "string list" where
  \<open>friendlyResponses =
    [''I'm focusing on active issues in the project right now. Would you like to see recent updates or high priority items?'',
     ''I'd be happy to help you explore the project data. Could you ask me about project status, tasks, deadlines, or team workload?'',
     ''Let me help you navigate your Jira project. You can ask me about project status, tasks, deadlines, team assignments, and more.'',
     ''I'm here to help you with your Jira project information. What would you like to know about your tasks or project status?'']\<close>

definition recoveryNote :: string where
  \<open>recoveryNote = ''I've found some information that might help with your question:''\<close>

definition generateResponse :: "env \<Rightarrow> string \<Rightarrow> issue list option \<Rightarrow> string \<Rightarrow> string option" where
  \<open>generateResponse e query data intent =
     (case data of
        None \<Rightarrow> Some ''I couldn't find any relevant information for your query.''
      | Some issues \<Rightarrow> renderer e query issues intent)\<close>

definition fieldsFor :: "string \<Rightarrow> string" where
  \<open>fieldsFor intent =
     ''summary,status,assignee,priority,created,updated,duedate''
     @ (if intent = ''COMMENTS'' then '',comment'' else [])
     @ (if intent = ''TIMELINE'' then '',duedate,created,updated'' else [])
     @ (if intent = ''BLOCKERS'' then '',issuelinks,labels'' else [])
     @ (if intent = ''TASK_DETAILS'' then '',comment,description,issuelinks,labels'' else [])
     @ (if intent = ''WORKLOAD'' then '',assignee'' else [])
     @ (if intent = ''SPRINT'' then '',sprint'' else [])\<close>

definition maxResultsFor :: "string \<Rightarrow> nat" where
  \<open>maxResultsFor intent = (if intent = ''TASK_LIST'' \<or> intent = ''ASSIGNED_TASKS'' then 20 else 50)\<close>

definition simplifiedJQL :: "string \<Rightarrow> string \<Rightarrow> string \<Rightarrow> string \<Rightarrow> string" where
  \<comment> \<open>the safe template chosen in the \<open>catch\<close> of the first search\<close>
  \<open>simplifiedJQL loadKey key intent query =
     (if intent = ''PROJECT_STATUS'' then PROJECT_STATUS loadKey
      else if intent = ''TIMELINE'' then TIMELINE loadKey
      else if intent = ''BLOCKERS'' \<or> intent = ''HIGH_PRIORITY'' then HIGH_PRIORITY loadKey
      else if intent = ''TASK_LIST'' \<and> test True (Lits [''open'', ''active'']) query then OPEN_TASKS loadKey
      else if intent = ''TASK_LIST'' \<and> test True (Lits [''closed'', ''done'', ''completed'']) query then CLOSED_TASKS loadKey
      else if intent = ''ASSIGNED_TASKS'' \<or> intent = ''WORKLOAD'' then ASSIGNED_TASKS loadKey
      else if intent = ''SPRINT'' then CURRENT_SPRINT loadKey
      else ''project = '' @ key @ '' ORDER BY updated DESC'')\<close>

text \<open>
  Step 4 of the endpoint: the search, and in its \<open>catch\<close> the one further search with the
  safe template. The result is the list of the queries that were sent, the session, and
  the data of the response that the later steps use, or \<open>None\<close> when the second search
  throws too.
\<close>

definition executeSearch ::
  "string \<Rightarrow> string \<Rightarrow> env \<Rightarrow> string \<Rightarrow> string \<Rightarrow> string \<Rightarrow> session \<Rightarrow> string list \<times> session \<times> issue list option option" where
  \<open>executeSearch loadKey key e query intent jql sess =
     (case firstSearch e jql (maxResultsFor intent) (fieldsFor intent) of
        SearchData d \<Rightarrow> ([jql], sess, Some d)
      | SearchFailed \<Rightarrow>
          (let simplified = simplifiedJQL loadKey key intent query in
           case retrySearch e simplified (maxResultsFor intent) (fieldsFor intent) of
             SearchFailed \<Rightarrow> ([jql, simplified], sess, None)
           | SearchData d \<Rightarrow>
               ([jql, simplified],
                (if d \<noteq> None then sess\<lparr>noteText := Some recoveryNote\<rparr> else sess),
                Some d)))\<close>

definition issueLine :: "issue \<Rightarrow> string" where
  \<open>issueLine i = bullet @ '' '' @ ikey i @ '': '' @ summary i @ '' ('' @ orElse (statusName i) ''Unknown''
     @ '', Assigned to: '' @ orElse (assigneeName i) ''Unassigned'' @ '')\<newline>''\<close>

definition directList :: "issue list \<Rightarrow> string" where
  \<comment> \<open>the direct fallback after the note\<close>
  \<open>directList issues =
     (if length issues = 0 then ''I couldn't find any issues matching your criteria.''
      else ''Here are '' @ showNat (min 5 (length issues)) @ '' recent items:\<newline>\<newline>''
           @ concat (map issueLine (take (min 5 (length issues)) issues))
           @ (if length issues > 5 then ''\<newline>... and '' @ showNat (length issues - 5) @ '' more items.'' else []))\<close>

text \<open>
  The grouping objects \<open>byAssignee\<close> and \<open>byStatus\<close>, in insertion order. A group name
  that \<open>Object.prototype\<close> defines makes the \<open>push\<close> throw. Names that are array indices,
  which the program lists first, are outside the model.
\<close>

fun insertGroup :: "string \<Rightarrow> issue \<Rightarrow> (string \<times> issue list) list \<Rightarrow> (string \<times> issue list) list" where
  "insertGroup k x [] = [(k, [x])]"
| "insertGroup k x ((k', xs) # rest) =
     (if k = k' then (k', xs @ [x]) # rest else (k', xs) # insertGroup k x rest)"

definition groupBy :: "(issue \<Rightarrow> string) \<Rightarrow> issue list \<Rightarrow> (string \<times> issue list) list option" where
  "groupBy f issues =
     (if list_ex (\<lambda>i. f i \<in> set objectPrototypeNames) issues then None
      else Some (foldl (\<lambda>acc i. insertGroup (f i) i acc) [] issues))"

definition groupText :: "(issue \<Rightarrow> string) \<Rightarrow> string \<times> issue list \<Rightarrow> string" where
  \<open>groupText line g =
     ''**'' @ fst g @ ''** ('' @ showNat (length (snd g)) @ '' issues):\<newline>''
     @ concat (map line (take (min 3 (length (snd g))) (snd g)))
     @ (if length (snd g) > 3 then ''... and '' @ showNat (length (snd g) - 3) @ '' more.\<newline>'' else [])
     @ ''\<newline>''\<close>

definition openings :: "nat \<Rightarrow> string list" where
  \<open>openings n =
    [''I found '' @ showNat n @ '' items related to your query.'',
     ''Here's what I found about your question:'',
     ''I've located '' @ showNat n @ '' relevant issues:'',
     ''Here's some information that might help:'']\<close>

definition groupedList :: "env \<Rightarrow> string \<Rightarrow> issue list \<Rightarrow> string option" where
  \<comment> \<open>the fallback without a note; \<open>None\<close> when it throws\<close>
  \<open>groupedList e intent issues =
     (if length issues = 0
      then Some ''I couldn't find any issues matching your criteria. Would you like to try a different search?''
      else if intent = ''ASSIGNED_TASKS'' \<or> intent = ''WORKLOAD''
      then (case groupBy (\<lambda>i. orElse (assigneeName i) ''Unassigned'') issues of
              None \<Rightarrow> None
            | Some groups \<Rightarrow>
                Some (pick (openings (length issues)) (draw e) @ ''\<newline>\<newline>''
                      @ concat (map (groupText (\<lambda>i. bullet @ '' '' @ ikey i @ '': '' @ summary i @ '' (''
                                       @ orElse (statusName i) ''Unknown'' @ '')\<newline>'')) groups)))
      else (case groupBy (\<lambda>i. orElse (statusName i) ''Unknown'') issues of
              None \<Rightarrow> None
            | Some groups \<Rightarrow>
                Some (pick (openings (length issues)) (draw e) @ ''\<newline>\<newline>''
                      @ concat (map (groupText (\<lambda>i. bullet @ '' '' @ ikey i @ '': '' @ summary i
                                       @ '' (Assigned to: '' @ orElse (assigneeName i) ''Unassigned''
                                       @ '')\<newline>'')) groups))))\<close>

text \<open>
  Step 5: the rendered text, after the note when the session holds one. The result is
  the session and the text, or \<open>None\<close> for a throw.
\<close>

definition renderReply :: "env \<Rightarrow> string \<Rightarrow> string \<Rightarrow> issue list option \<Rightarrow> session \<Rightarrow> session \<times> string option" where
  \<open>renderReply e query intent data sess =
     (if orElse (noteText sess) [] \<noteq> [] then
        (let note = orElse (noteText sess) []; sess' = sess\<lparr>noteText := None\<rparr> in
         case generateResponse e query data intent of
           Some baseResponse \<Rightarrow> (sess', Some (note @ ''\<newline>\<newline>'' @ baseResponse))
         | None \<Rightarrow>
             (case data of
                None \<Rightarrow> (sess', None)
              | Some issues \<Rightarrow> (sess', Some (note @ ''\<newline>\<newline>'' @ directList issues))))
      else
        (case generateResponse e query data intent of
           Some r \<Rightarrow> (sess, Some r)
         | None \<Rightarrow>
             (case data of
                None \<Rightarrow> (sess, None)
              | Some issues \<Rightarrow> (sess, groupedList e intent issues))))\<close>

datatype reply = Responded response | Thrown

definition searchAndRender ::
  "string \<Rightarrow> string \<Rightarrow> env \<Rightarrow> string \<Rightarrow> string \<Rightarrow> string \<Rightarrow> session \<Rightarrow> string list \<times> session \<times> reply" where
  \<comment> \<open>steps 4 and 5, and the reply that ends the \<open>try\<close> block\<close>
  \<open>searchAndRender loadKey key e query intent jql sess =
     (case executeSearch loadKey key e query intent jql sess of
        (sent, sess1, None) \<Rightarrow> (sent, sess1, Thrown)
      | (sent, sess1, Some data) \<Rightarrow>
          (case renderReply e query intent data sess1 of
             (sess2, None) \<Rightarrow> (sent, sess2, Thrown)
           | (sess2, Some formattedResponse) \<Rightarrow>
               (sent, sess2\<lparr>lastResponse := Some formattedResponse\<rparr>,
                Responded \<lparr>status = 200, message = formattedResponse, rawData = Some data\<rparr>)))\<close>

definition ok :: "string \<Rightarrow> response" where
  \<comment> \<open>\<open>res.json({message, ...})\<close>: status 200\<close>
  "ok m = \<lparr>status = 200, message = m, rawData = None\<rparr>"

definition stored :: "session \<Rightarrow> string \<Rightarrow> session \<times> reply" where
  \<comment> \<open>a reply that is stored as the last response of the session\<close>
  "stored sess m = (sess\<lparr>lastResponse := Some m\<rparr>, Responded (ok m))"

definition afterIntent :: "string \<Rightarrow> string \<Rightarrow> env \<Rightarrow> string \<Rightarrow> string \<Rightarrow> session \<Rightarrow> session \<times> reply" where
  \<comment> \<open>the \<open>try\<close> block from the single-issue block on\<close>
  \<open>afterIntent loadKey key e query intent sess =
     (case (if test True (keyRx key) query then issueView e else None) of
        Some m \<Rightarrow> stored sess m
      | None \<Rightarrow>
          if intent = ''CONVERSATION'' then
            (case recentSearch e of
               SearchFailed \<Rightarrow> stored sess (pick conversationalResponses (draw e))
             | SearchData d \<Rightarrow>
                 (case generateResponse e query d intent of
                    Some m \<Rightarrow> stored sess m
                  | None \<Rightarrow> stored sess (pick conversationalResponses (draw e))))
          else
            (let jql = generateJQL loadKey key (synthReply e) query intent in
             if jql = [] then
               (sess, Responded \<lparr>status = 400, message = ''Failed to generate a valid query.'', rawData = None\<rparr>)
             else snd (searchAndRender loadKey key e query intent jql sess)))\<close>

definition tryBlock :: "string \<Rightarrow> string \<Rightarrow> env \<Rightarrow> string \<Rightarrow> session \<Rightarrow> session \<times> reply" where
  \<open>tryBlock loadKey key e query0 sess =
     (let query = preprocessQuery key query0 in
      case (if query = ''show most recently updated task'' then mostRecentTask e else None) of
        Some m \<Rightarrow> stored sess m
      | None \<Rightarrow>
      (case (if query = ''show project status'' then statusOverview e else None) of
        Some m \<Rightarrow> stored sess m
      | None \<Rightarrow>
      (case (if query = ''show project timeline'' \<or> query = ''show upcoming deadlines''
             then projectTimeline e else None) of
        Some m \<Rightarrow> stored sess m
      | None \<Rightarrow>
      (case (if query = ''show team workload'' then teamWorkload e else None) of
        Some m \<Rightarrow> stored sess m
      | None \<Rightarrow>
          (let intent = analyzeQueryIntent key (classifyReply e) query;
               sess1 = sess\<lparr>intents := pushHistory (intents sess) intent\<rparr>
           in if intent = ''GREETING'' then stored sess1 (pick greetingResponses (draw e))
              else (case (if intent = ''SPRINT'' then sprintView e else SprintError) of
                      SprintReply m \<Rightarrow> stored sess1 m
                    | SprintFallbackReply m \<Rightarrow> (sess1, Responded (ok m))
                    | SprintError \<Rightarrow> afterIntent loadKey key e query intent sess1))))))\<close>

definition lastResort :: "env \<Rightarrow> response" where
  \<comment> \<open>the outer \<open>catch\<close>\<close>
  \<open>lastResort e =
     (case basicSearch e of
        SearchData (Some issues) \<Rightarrow>
          if length issues > 0
          then ok (pick relevantInfo (draw e) @ ''\<newline>\<newline>'' @ concat (map issueLine issues)
                   @ ''\<newline>\<newline>Could you try rephrasing your question? I can help you with project status, tasks, deadlines, and team workload.'')
          else ok (pick friendlyResponses (draw e))
      | _ \<Rightarrow> ok (pick friendlyResponses (draw e)))\<close>

text \<open>
  The handler of \<open>POST /api/query\<close>. \<open>Rejected\<close> is a throw outside the \<open>try\<close> block:
  the handler's promise is rejected and the handler has written no response.
\<close>

datatype outcome = Sent response | Rejected

definition sessionIdOf :: "request \<Rightarrow> string" where
  \<comment> \<open>\<open>let { query, sessionId = "default" } = req.body\<close>\<close>
  \<open>sessionIdOf req = (case body_sessionId req of None \<Rightarrow> ''default'' | Some s \<Rightarrow> s)\<close>

definition handleQuery :: "string \<Rightarrow> string \<Rightarrow> env \<Rightarrow> request \<Rightarrow> (string \<rightharpoonup> session) \<Rightarrow> (string \<rightharpoonup> session) \<times> outcome" where
  \<open>handleQuery loadKey key e req mem =
     (if body_query req = [] then
        (mem, Sent \<lparr>status = 400, message = ''Query is required'', rawData = None\<rparr>)
      else
        (case lookupSession mem (sessionIdOf req) of
           Inherited \<Rightarrow> (mem, Rejected)
         | found \<Rightarrow>
             (let sess0 = (case found of Own s \<Rightarrow> s | _ \<Rightarrow> emptySession);
                  sess1 = sess0\<lparr>queries := pushHistory (queries sess0) (body_query req)\<rparr>
              in case tryBlock loadKey key e (body_query req) sess1 of
                   (sess2, Responded r) \<Rightarrow> (mem(sessionIdOf req \<mapsto> sess2), Sent r)
                 | (sess2, Thrown) \<Rightarrow> (mem(sessionIdOf req \<mapsto> sess2), Sent (lastResort e)))))\<close>



section \<open>Specification-side notions\<close>

text \<open>
  A token that matches the issue-key pattern: the project key in any letter case, a
  dash, and one or more digits.
\<close>

definition isKeyToken :: "string \<Rightarrow> string \<Rightarrow> bool" where
  \<open>isKeyToken key tok =
     (map upperA (take (length key) tok) = map upperA key
      \<and> (case drop (length key) tok of
            [] \<Rightarrow> False
          | c # ds \<Rightarrow> c = CHR ''-'' \<and> ds \<noteq> [] \<and> list_all isDigit ds))\<close>

text \<open>
  The issue key that starts at the head of a text, with all the digits that follow the
  dash, and the first issue key in a text.
\<close>

definition keyAt :: "string \<Rightarrow> string \<Rightarrow> string option" where
  \<open>keyAt key r =
     (if map upperA (take (length key) r) = map upperA key
      then (case drop (length key) r of
              c # d # ds \<Rightarrow>
                if c = CHR ''-'' \<and> isDigit d
                then Some (take (length key) r @ c # d # takeWhile isDigit ds) else None
            | _ \<Rightarrow> None)
      else None)\<close>

fun firstKey :: "string \<Rightarrow> string \<Rightarrow> string option" where
  "firstKey key [] = None"
| "firstKey key (x # xs) = (case keyAt key (x # xs) of Some t \<Rightarrow> Some t | None \<Rightarrow> firstKey key xs)"

text \<open>
  The positions that the greedy repetition of a one-character class reaches from a
  position, the farthest first.
\<close>

fun backoff :: "(char \<Rightarrow> bool) \<Rightarrow> string \<Rightarrow> string \<Rightarrow> (string \<times> string) list" where
  "backoff P p [] = [(p, [])]"
| "backoff P p (x # xs) = (if P x then backoff P (x # p) xs else []) @ [(p, x # xs)]"


section \<open>Character classes on the bits of a character\<close>

text \<open>
  The character classes are defined on character codes. For evaluation they are also
  given on the eight bits of a character, least significant first.
\<close>

lemma isDigit_bits:
  "isDigit (Char b0 b1 b2 b3 b4 b5 b6 b7) = (\<not> b7 \<and> \<not> b6 \<and> b5 \<and> b4 \<and> (\<not> b3 \<or> (\<not> b2 \<and> \<not> b1)))"
  by (cases b0; cases b1; cases b2; cases b3; cases b4; cases b5; cases b6; cases b7; simp add: isDigit_def)

lemma isSpace_bits:
  "isSpace (Char b0 b1 b2 b3 b4 b5 b6 b7) =
     (if b5 then \<not> b6 \<and> \<not> b4 \<and> \<not> b3 \<and> \<not> b2 \<and> \<not> b1 \<and> \<not> b0
      else \<not> b7 \<and> \<not> b6 \<and> \<not> b4 \<and> b3 \<and> (if b2 then \<not> b1 else b1 \<or> b0))"
  by (cases b0; cases b1; cases b2; cases b3; cases b4; cases b5; cases b6; cases b7; simp add: isSpace_def)

lemma isWord_bits:
  "isWord (Char b0 b1 b2 b3 b4 b5 b6 b7) =
     (\<not> b7 \<and>
      (if b6 then (if b4 then (\<not> b3 \<or> (\<not> b2 \<and> \<not> (b1 \<and> b0))) \<or> (\<not> b5 \<and> b3 \<and> b2 \<and> b1 \<and> b0)
                  else b0 \<or> b1 \<or> b2 \<or> b3)
       else b5 \<and> b4 \<and> (\<not> b3 \<or> (\<not> b2 \<and> \<not> b1))))"
  by (cases b0; cases b1; cases b2; cases b3; cases b4; cases b5; cases b6; cases b7; simp add: isWord_def)

lemma isLineEnd_bits:
  "isLineEnd (Char b0 b1 b2 b3 b4 b5 b6 b7) =
     (\<not> b7 \<and> \<not> b6 \<and> \<not> b5 \<and> \<not> b4 \<and> b3 \<and> (if b2 then \<not> b1 \<and> b0 else b1 \<and> \<not> b0))"
  by (cases b0; cases b1; cases b2; cases b3; cases b4; cases b5; cases b6; cases b7; simp add: isLineEnd_def)

lemma upperA_bits:
  "upperA (Char b0 b1 b2 b3 b4 b5 b6 b7) =
     (if \<not> b7 \<and> b6 \<and> b5 \<and> (if b4 then \<not> b3 \<or> (\<not> b2 \<and> \<not> (b1 \<and> b0)) else b0 \<or> b1 \<or> b2 \<or> b3)
      then Char b0 b1 b2 b3 b4 False b6 b7 else Char b0 b1 b2 b3 b4 b5 b6 b7)"
  by (cases b0; cases b1; cases b2; cases b3; cases b4; cases b5; cases b6; cases b7;
      simp add: upperA_def char_of_def bit_0 bit_Suc_0_iff)

lemma toLowerChar_bits:
  "toLowerChar (Char b0 b1 b2 b3 b4 b5 b6 b7) =
     (if b6 \<and> \<not> b5 \<and>
         (if b7 then \<not> (b4 \<and> \<not> b3 \<and> b2 \<and> b1 \<and> b0) \<and> \<not> (b4 \<and> b3 \<and> b2 \<and> b1 \<and> b0)
          else (if b4 then \<not> b3 \<or> (\<not> b2 \<and> \<not> (b1 \<and> b0)) else b0 \<or> b1 \<or> b2 \<or> b3))
      then Char b0 b1 b2 b3 b4 True b6 b7 else Char b0 b1 b2 b3 b4 b5 b6 b7)"
  by (cases b0; cases b1; cases b2; cases b3; cases b4; cases b5; cases b6; cases b7;
      simp add: toLowerChar_def char_of_def bit_0 bit_Suc_0_iff)

declare isDigit_bits [code] isSpace_bits [code] isWord_bits [code] isLineEnd_bits [code]
  upperA_bits [code] toLowerChar_bits [code]

section \<open>Properties of the sanitizer\<close>

lemma star_notparen:
  "ends False (Star (NoneOf [CS ''(''])) (pre, c # cs) =
     (if c = CHR ''('' then [] else ends False (Star (NoneOf [CS ''(''])) (c # pre, cs)) @ [(pre, c # cs)]"
  by (subst ends_Star) simp

lemma star_notparen_nil: "ends False (Star (NoneOf [CS ''(''])) (pre, []) = [(pre, [])]"
  by (subst ends_Star) simp

lemma ahead_step:
  "ends False (Seq (Star (NoneOf [CS ''(''])) (Chr CHR '')'')) (pre, c # cs) =
     (if c = CHR ''('' then [] else ends False (Seq (Star (NoneOf [CS ''(''])) (Chr CHR '')'')) (c # pre, cs))
     @ (if c = CHR '')'' then [(c # pre, cs)] else [])"
  by (simp add: star_notparen ceq_def)

lemma ahead_nil:
  "ends False (Seq (Star (NoneOf [CS ''(''])) (Chr CHR '')'')) (pre, []) = []"
  by (simp add: star_notparen_nil)

lemma ahead_closes:
  "(ends False (Seq (Star (NoneOf [CS ''(''])) (Chr CHR '')'')) (pre, cs) = []) = (\<not> closesFirst cs)"
proof (induction cs arbitrary: pre)
  case Nil
  show ?case by (simp only: ahead_nil closesFirst.simps) simp
next
  case (Cons c cs)
  show ?case
    unfolding ahead_step using Cons[of "c # pre"] by (simp del: ends.simps(6))
qed

lemma commaOutside_ends:
  "ends False commaOutside (pre, rest) =
     (case rest of [] \<Rightarrow> [] | x # xs \<Rightarrow> if x = CHR '','' \<and> \<not> closesFirst xs then [(x # pre, xs)] else [])"
  unfolding commaOutside_def
  by (subst ends.simps(6)) (simp add: ceq_def ahead_closes split: list.split del: ends.simps(6))

lemma replaceAll_commas:
  "replaceAll (whole False commaOutside (\<lambda>_. '' AND '')) (pre, s) = commaSpec s"
proof (induction s arbitrary: pre)
  case Nil
  show ?case by (subst replaceAll.simps) (simp add: whole_def commaOutside_ends)
next
  case (Cons c cs)
  show ?case
    by (subst replaceAll.simps) (simp add: whole_def commaOutside_ends Cons split: list.split)
qed

text \<open>
  C2. The claim is that the sanitizer's output always contains the project-scope
  clause. On the input \<open>status = "Open"\<close> with the project key \<open>NIHK\<close> the scope clause
  is added and then rewritten by the later steps: the output contains neither
  \<open>project = NIHK\<close> nor \<open>project = "NIHK"\<close>. An input that is scoped already,
  \<open>project = NIHK AND status = "Open"\<close>, loses its clause in the same way.
\<close>

theorem sanitizeJQL_rewrites_scope_clause:
  \<open>sanitizeJQL ''NIHK'' ''status = "Open"'' = ''project = "NIHK "and"" (status = "Open")''
   \<and> \<not> includesStr (sanitizeJQL ''NIHK'' ''status = "Open"'') ''project = NIHK''
   \<and> \<not> includesStr (sanitizeJQL ''NIHK'' ''status = "Open"'') ''project = "NIHK"''
   \<and> sanitizeJQL ''NIHK'' ''project = NIHK AND status = "Open"'' = ''project = "NIHK "and"" status = "Open"''\<close>
  by code_simp

text \<open>
  C3. The claim is that sanitizing twice gives what sanitizing once gives, no quoting
  step wrapping a word that is quoted already. The input \<open>project = "NIHK" AND x\<close> is
  sanitized to \<open>project = "NIHK" "and" x\<close>, and that text is sanitized to
  \<open>project = "NIHK" ""and"" x\<close>.
\<close>

theorem sanitizeJQL_quotes_again:
  \<open>sanitizeJQL ''NIHK'' ''project = "NIHK" AND x'' = ''project = "NIHK" "and" x''
   \<and> sanitizeJQL ''NIHK'' (sanitizeJQL ''NIHK'' ''project = "NIHK" AND x'') = ''project = "NIHK" ""and"" x''
   \<and> sanitizeJQL ''NIHK'' (sanitizeJQL ''NIHK'' ''project = "NIHK" AND x'') \<noteq> sanitizeJQL ''NIHK'' ''project = "NIHK" AND x''\<close>
  by code_simp

lemma fixCommas_commaSpec: "fixCommas s = commaSpec s"
  by (simp add: fixCommas_def replace_def replaceAll_commas)

text \<open>
  C4. The claim is that the sanitizer replaces a bare comma outside parentheses by the
  operator \<open>AND\<close>. On the claim's input \<open>status = "Open", assignee = "Jo"\<close>, with the
  project key \<open>NIHK\<close>, the first step does put \<open> AND \<close> in the place of the comma; the
  step that quotes reserved words then rewrites that operator into the string literal
  \<open>"and"\<close>, as it rewrites the one of the scope clause, and the output of the sanitizer
  contains no \<open>AND\<close> at all. The same happens on an input that is scoped already.
\<close>

theorem sanitizeJQL_comma_operator_quoted:
  \<open>fixCommas ''status = "Open", assignee = "Jo"'' = ''status = "Open" AND  assignee = "Jo"''
   \<and> sanitizeJQL ''NIHK'' ''status = "Open", assignee = "Jo"''
       = ''project = "NIHK "and"" (status = "Open" "and"  assignee = "Jo")''
   \<and> \<not> includesStr (sanitizeJQL ''NIHK'' ''status = "Open", assignee = "Jo"'') ''AND''
   \<and> sanitizeJQL ''NIHK'' ''status = "Open", assignee = "Jo"'' \<noteq> ''status = "Open" AND assignee = "Jo"''
   \<and> sanitizeJQL ''NIHK'' ''project = "NIHK" AND status = "Open", assignee = "Jo"''
       = ''project = "NIHK" "and" status = "Open" "and"  assignee = "Jo"''\<close>
  by code_simp

section \<open>Properties of the synthesizer\<close>

lemma isWord_upperA: "isWord (upperA c) = isWord c"
proof (cases c)
  case (Char b0 b1 b2 b3 b4 b5 b6 b7)
  show ?thesis unfolding Char upperA_bits
    by (simp add: isWord_bits)
qed

lemma word_not_space: "isWord c \<Longrightarrow> \<not> isSpace c"
proof (cases c)
  case (Char b0 b1 b2 b3 b4 b5 b6 b7)
  show "isWord c \<Longrightarrow> \<not> isSpace c" unfolding Char isWord_bits isSpace_bits
    by (simp split: if_splits)
qed

lemma digit_not_space: "isDigit c \<Longrightarrow> \<not> isSpace c"
proof (cases c)
  case (Char b0 b1 b2 b3 b4 b5 b6 b7)
  show "isDigit c \<Longrightarrow> \<not> isSpace c" unfolding Char isDigit_bits isSpace_bits
    by (simp split: if_splits)
qed

lemma space_not_digit: "isSpace c \<Longrightarrow> \<not> isDigit c"
  using digit_not_space by blast

lemma dash_not_space: "\<not> isSpace CHR ''-''"
  by (simp add: isSpace_def)

lemma ceq_word: "ceq True a b \<Longrightarrow> isWord a \<Longrightarrow> isWord b"
  by (metis ceq_def isWord_upperA)

lemma upperA_dash: "(upperA CHR ''-'' = upperA c) = (c = CHR ''-'')"
proof (cases c)
  case (Char b0 b1 b2 b3 b4 b5 b6 b7)
  show ?thesis unfolding Char upperA_bits
    by (simp split: if_splits)
qed

lemma all2_upper: "list_all2 (\<lambda>a b. upperA a = upperA b) w u = (map upperA w = map upperA u)"
proof (induction w arbitrary: u)
  case Nil
  show ?case by simp
next
  case (Cons c w)
  show ?case by (cases u) (simp_all add: Cons)
qed

lemma all2_ceq: "list_all2 (ceq True) w u = (map upperA w = map upperA u)"
proof -
  have "ceq True = (\<lambda>a b. upperA a = upperA b)"
    by (intro ext) (simp add: ceq_def)
  then show ?thesis by (simp add: all2_upper)
qed

lemma ends_Lit:
  "ends ci (Lit w) (p, r) =
     (if length w \<le> length r \<and> list_all2 (ceq ci) w (take (length w) r)
      then [(rev (take (length w) r) @ p, drop (length w) r)] else [])"
proof (induction w arbitrary: p r)
  case Nil
  show ?case by simp
next
  case (Cons c w)
  show ?case
  proof (cases r)
    case Nil
    then show ?thesis by simp
  next
    case (Cons x xs)
    then show ?thesis using Cons.IH[of "x # p" xs] by simp
  qed
qed

lemma ends_Star_class:
  "ends ci (Star (OneOf cs)) (p, r) = backoff (\<lambda>x. list_ex (\<lambda>k. inCset k x) cs) p r"
proof (induction r arbitrary: p)
  case Nil
  show ?case by (subst ends_Star) simp
next
  case (Cons x xs)
  show ?case by (subst ends_Star) (simp add: Cons)
qed

lemma backoff_ne: "backoff P p r \<noteq> []"
  by (cases r) simp_all

lemma backoff_hd: "hd (backoff P p r) = (rev (takeWhile P r) @ p, dropWhile P r)"
  by (induction r arbitrary: p) (simp_all add: backoff_ne)

lemma backoff_mem:
  "q \<in> set (backoff P p r) \<Longrightarrow> \<exists>u. r = u @ snd q \<and> fst q = rev u @ p \<and> list_all P u"
proof (induction r arbitrary: p)
  case Nil
  then show ?case by simp
next
  case (Cons x xs)
  from Cons.prems consider "P x" "q \<in> set (backoff P (x # p) xs)" | "q = (p, x # xs)"
    by (auto split: if_splits)
  then show ?case
  proof cases
    case 1
    from Cons.IH[OF 1(2)] obtain u where "xs = u @ snd q" "fst q = rev u @ x # p" "list_all P u"
      by blast
    with 1(1) show ?thesis by (intro exI[of _ "x # u"]) simp
  next
    case 2
    then show ?thesis by (intro exI[of _ "[]"]) simp
  qed
qed

lemma keyRx_unfold:
  "keyRx key = Seq (Lit key) (Seq (Chr CHR ''-'') (Seq (OneOf [Dg]) (Star (OneOf [Dg]))))"
  by (simp add: keyRx_def Plus_def digit_def)

lemma keyRx_ends:
  "ends True (keyRx key) (p, r) =
     (if map upperA (take (length key) r) = map upperA key
      then (case drop (length key) r of
              c # d # ds \<Rightarrow>
                if c = CHR ''-'' \<and> isDigit d
                then backoff isDigit (d # c # rev (take (length key) r) @ p) ds else []
            | _ \<Rightarrow> [])
      else [])"
proof -
  have len: "map upperA (take (length key) r) = map upperA key \<Longrightarrow> length key \<le> length r"
    by (metis length_map length_take min.cobounded1)
  have eq: "(map upperA key = map upperA (take (length key) r)) = (map upperA (take (length key) r) = map upperA key)"
    by auto
  show ?thesis
    unfolding keyRx_unfold
    apply (subst ends.simps(6))
    apply (subst ends_Lit)
    apply (simp only: all2_ceq eq)
    apply (cases "map upperA (take (length key) r) = map upperA key")
     apply (simp add: len ends_Star_class ceq_def upperA_dash split: list.split)
    apply simp
    done
qed

lemma between_append: "between (p, u @ v) (q, v) = u"
  by (simp add: between_def)

lemma keyRx_first:
  "(case ends True (keyRx key) (p, r) of [] \<Rightarrow> None | q # _ \<Rightarrow> Some (between (p, r) q)) = keyAt key r"
proof (cases "map upperA (take (length key) r) = map upperA key")
  case False
  then show ?thesis by (simp add: keyRx_ends keyAt_def)
next
  case True
  show ?thesis
  proof (cases "drop (length key) r")
    case Nil
    then show ?thesis using True by (simp add: keyRx_ends keyAt_def)
  next
    case (Cons c rest)
    show ?thesis
    proof (cases rest)
      case Nil
      then show ?thesis using True Cons by (simp add: keyRx_ends keyAt_def)
    next
      case (Cons d ds)
      note dr = \<open>drop (length key) r = c # rest\<close> Cons
      show ?thesis
      proof (cases "c = CHR ''-'' \<and> isDigit d")
        case False
        then show ?thesis using True dr by (auto simp add: keyRx_ends keyAt_def)
      next
        case ok: True
        let ?k = "take (length key) r"
        let ?b = "backoff isDigit (d # c # rev ?k @ p) ds"
        have r: "r = (?k @ c # d # takeWhile isDigit ds) @ dropWhile isDigit ds"
          using dr by (metis append.assoc append_Cons append_take_drop_id takeWhile_dropWhile_id)
        obtain q qs where b: "?b = q # qs"
          using backoff_ne by (cases ?b) auto
        have "q = hd ?b" using b by simp
        then have q: "q = (rev (takeWhile isDigit ds) @ d # c # rev ?k @ p, dropWhile isDigit ds)"
          by (simp add: backoff_hd)
        have "between (p, r) q = ?k @ c # d # takeWhile isDigit ds"
          unfolding q by (subst r) (rule between_append)
        then show ?thesis using True dr ok b by (simp add: keyRx_ends keyAt_def)
      qed
    qed
  qed
qed

lemma search_key:
  "(case search True (keyRx key) pre s of None \<Rightarrow> None | Some (a, b) \<Rightarrow> Some (between a b)) = firstKey key s"
proof (induction s arbitrary: pre)
  case Nil
  have "keyAt key [] = None" by (simp add: keyAt_def)
  then show ?case using keyRx_first[where key=key and p=pre and r="[]"] by (simp split: list.splits)
next
  case (Cons x xs)
  show ?case
  proof (cases "ends True (keyRx key) (pre, x # xs)")
    case Nil
    then have "keyAt key (x # xs) = None"
      using keyRx_first[where key=key and p=pre and r="x # xs"] by simp
    then show ?thesis using Nil Cons[of "x # pre"] by simp
  next
    case (Cons q qs)
    then have "keyAt key (x # xs) = Some (between (pre, x # xs) q)"
      using keyRx_first[where key=key and p=pre and r="x # xs"] by simp
    then show ?thesis using Cons by simp
  qed
qed

lemma match0_key: "match0 True (keyRx key) s = firstKey key s"
  using search_key[of key "[]" s] by (simp add: match0_def split: option.splits prod.splits)

lemma keyAt_token:
  assumes "keyAt key r = Some t"
  shows "isKeyToken key t"
proof -
  let ?k = "take (length key) r"
  from assms have e: "map upperA ?k = map upperA key"
    by (auto simp: keyAt_def split: if_splits)
  then have len: "length ?k = length key"
    by (metis length_map)
  from assms e obtain d ds where
    dr: "drop (length key) r = CHR ''-'' # d # ds" and d: "isDigit d"
    and t: "t = ?k @ CHR ''-'' # d # takeWhile isDigit ds"
    by (auto simp: keyAt_def split: if_splits list.splits)
  have "take (length key) t = ?k" "drop (length key) t = CHR ''-'' # d # takeWhile isDigit ds"
    using len unfolding t by simp_all
  moreover have "list_all isDigit (d # takeWhile isDigit ds)"
    using d by (auto simp: list_all_iff dest: set_takeWhileD)
  ultimately show ?thesis
    using e by (simp add: isKeyToken_def)
qed

lemma firstKey_token: "firstKey key s = Some t \<Longrightarrow> isKeyToken key t"
  by (induction s) (auto split: option.splits dest: keyAt_token)

lemma token_length: "isKeyToken key tok \<Longrightarrow> length key \<le> length tok"
  by (cases "length key \<le> length tok") (auto simp: isKeyToken_def)

lemma keyAt_at_token:
  assumes "isKeyToken key tok"
  shows "keyAt key (tok @ post) \<noteq> None"
proof -
  have len: "length key \<le> length tok" using assms by (rule token_length)
  from assms obtain d ds where dr: "drop (length key) tok = CHR ''-'' # d # ds" and d: "isDigit d"
    by (cases "drop (length key) tok") (auto simp: isKeyToken_def neq_Nil_conv)
  from assms have e: "map upperA (take (length key) tok) = map upperA key"
    by (simp add: isKeyToken_def)
  have "take (length key) (tok @ post) = take (length key) tok"
    "drop (length key) (tok @ post) = CHR ''-'' # d # ds @ post"
    using len dr by simp_all
  then show ?thesis using e d by (simp add: keyAt_def)
qed

lemma firstKey_finds: "isKeyToken key tok \<Longrightarrow> firstKey key (pre @ tok @ post) \<noteq> None"
proof (induction pre)
  case Nil
  have "keyAt key (tok @ post) \<noteq> None" using Nil by (rule keyAt_at_token)
  moreover have "tok @ post \<noteq> []" using Nil by (auto simp: isKeyToken_def)
  ultimately show ?case by (cases "tok @ post") auto
next
  case (Cons x pre)
  then show ?case by (simp split: option.splits)
qed

lemma search_sound:
  "search ci r pre s = Some (a, b) \<Longrightarrow>
     (\<exists>u v. s = u @ v \<and> a = (rev u @ pre, v)) \<and> b \<in> set (ends ci r a)"
proof (induction s arbitrary: pre)
  case Nil
  then show ?case by (auto split: list.splits)
next
  case (Cons x xs)
  show ?case
  proof (cases "ends ci r (pre, x # xs)")
    case Nil
    with Cons.prems have "search ci r (x # pre) xs = Some (a, b)" by simp
    from Cons.IH[OF this] obtain u v where "xs = u @ v" "a = (rev u @ x # pre, v)" "b \<in> set (ends ci r a)"
      by blast
    then show ?thesis by (intro conjI exI[of _ "x # u"] exI[of _ v]) simp_all
  next
    case (Cons q qs)
    with Cons.prems have "a = (pre, x # xs)" "b = q" by simp_all
    with Cons show ?thesis by (intro conjI exI[of _ "[]"] exI[of _ "x # xs"]) simp_all
  qed
qed

lemma mem_Seq: "q \<in> set (ends ci (Seq a b) p) \<longleftrightarrow> (\<exists>m\<in>set (ends ci a p). q \<in> set (ends ci b m))"
  by simp

lemma mem_Star_space:
  "q \<in> set (ends ci (Star (OneOf [Sp])) pos) \<Longrightarrow> \<exists>u. snd pos = u @ snd q \<and> list_all isSpace u"
  using backoff_mem[of q isSpace "fst pos" "snd pos"] ends_Star_class[of ci "[Sp]" "fst pos" "snd pos"]
  by auto

lemma mem_Star_digit:
  "q \<in> set (ends ci (Star (OneOf [Dg])) pos) \<Longrightarrow> \<exists>u. snd pos = u @ snd q \<and> list_all isDigit u"
  using backoff_mem[of q isDigit "fst pos" "snd pos"] ends_Star_class[of ci "[Dg]" "fst pos" "snd pos"]
  by auto

lemma mem_Lit:
  "q \<in> set (ends True (Lit w) pos) \<Longrightarrow> \<exists>k. snd pos = k @ snd q \<and> map upperA k = map upperA w"
  using ends_Lit[of True w "fst pos" "snd pos"]
  by (auto simp: all2_ceq split: if_splits intro!: exI[of _ "take (length w) (snd pos)"])

lemma mem_dash:
  "q \<in> set (ends True (Chr CHR ''-'') pos) \<Longrightarrow> snd pos = CHR ''-'' # snd q"
  by (cases pos; cases "snd pos") (auto simp: ceq_def upperA_dash split: if_splits)

lemma mem_digit:
  "q \<in> set (ends ci (OneOf [Dg]) pos) \<Longrightarrow> \<exists>d. snd pos = d # snd q \<and> isDigit d"
  by (cases pos; cases "snd pos") (auto split: if_splits)

lemma mem_Eol: "q \<in> set (ends ci Eol pos) \<Longrightarrow> snd pos = []"
  by (cases pos) (auto split: if_splits)

lemma mem_Bol: "q \<in> set (ends ci Bol pos) \<Longrightarrow> fst pos = [] \<and> q = pos"
  by (cases pos) (auto split: if_splits)

lemma exact_shape:
  assumes "test True (exactKeyRx key) query"
  shows "\<exists>u1 k ds u2. query = u1 @ k @ CHR ''-'' # ds @ u2 \<and> list_all isSpace u1 \<and> list_all isSpace u2
           \<and> map upperA k = map upperA key \<and> ds \<noteq> [] \<and> list_all isDigit ds"
proof -
  let ?Y5 = "Seq (Star (OneOf [Sp])) Eol"
  let ?Y4 = "Seq (Seq (OneOf [Dg]) (Star (OneOf [Dg]))) ?Y5"
  let ?Y3 = "Seq (Chr CHR ''-'') ?Y4"
  let ?Y2 = "Seq (Lit key) ?Y3"
  let ?Y1 = "Seq (Star (OneOf [Sp])) ?Y2"
  have unf: "exactKeyRx key = Seq Bol ?Y1"
    by (simp add: exactKeyRx_def Plus_def ws_def digit_def)
  from assms obtain a b where s: "search True (exactKeyRx key) [] query = Some (a, b)"
    by (auto simp: test_def)
  from search_sound[OF s] obtain u v where q: "query = u @ v" and a: "a = (rev u @ [], v)"
    and b': "b \<in> set (ends True (exactKeyRx key) a)"
    by blast
  from b' have b: "b \<in> set (ends True (Seq Bol ?Y1) a)"
    by (simp only: unf)
  from b obtain m0 where m0: "m0 \<in> set (ends True Bol a)" and b0: "b \<in> set (ends True ?Y1 m0)"
    unfolding mem_Seq[of b True Bol] by blast
  from mem_Bol[OF m0] have "fst a = []" "m0 = a" by simp_all
  then have m0q: "m0 = ([], query)" using q a by simp
  from b0 obtain m1 where m1: "m1 \<in> set (ends True (Star (OneOf [Sp])) m0)"
    and b1: "b \<in> set (ends True ?Y2 m1)"
    unfolding mem_Seq[of b True "Star (OneOf [Sp])"] by blast
  from mem_Star_space[OF m1] obtain u1 where u1: "query = u1 @ snd m1" "list_all isSpace u1"
    using m0q by auto
  from b1 obtain m2 where m2: "m2 \<in> set (ends True (Lit key) m1)"
    and b2: "b \<in> set (ends True ?Y3 m2)"
    unfolding mem_Seq[of b True "Lit key"] by blast
  from mem_Lit[OF m2] obtain k where k: "snd m1 = k @ snd m2" "map upperA k = map upperA key" by blast
  from b2 obtain m3 where m3: "m3 \<in> set (ends True (Chr CHR ''-'') m2)"
    and b3: "b \<in> set (ends True ?Y4 m3)"
    unfolding mem_Seq[of b True "Chr CHR ''-''"] by blast
  from mem_dash[OF m3] have r3: "snd m2 = CHR ''-'' # snd m3" .
  from b3 obtain m5 where m5: "m5 \<in> set (ends True (Seq (OneOf [Dg]) (Star (OneOf [Dg]))) m3)"
    and b5: "b \<in> set (ends True ?Y5 m5)"
    unfolding mem_Seq[of b True "Seq (OneOf [Dg]) (Star (OneOf [Dg]))"] by blast
  from m5 obtain m4 where m4: "m4 \<in> set (ends True (OneOf [Dg]) m3)"
    and m5': "m5 \<in> set (ends True (Star (OneOf [Dg])) m4)"
    unfolding mem_Seq[of m5 True "OneOf [Dg]"] by blast
  from mem_digit[OF m4] obtain d where d: "snd m3 = d # snd m4" "isDigit d" by blast
  from mem_Star_digit[OF m5'] obtain ds where ds: "snd m4 = ds @ snd m5" "list_all isDigit ds" by blast
  from b5 obtain m6 where m6: "m6 \<in> set (ends True (Star (OneOf [Sp])) m5)"
    and b6: "b \<in> set (ends True Eol m6)"
    unfolding mem_Seq[of b True "Star (OneOf [Sp])"] by blast
  from mem_Star_space[OF m6] obtain u2 where u2: "snd m5 = u2 @ snd m6" "list_all isSpace u2" by blast
  from mem_Eol[OF b6] have "snd m6 = []" .
  then have "query = u1 @ k @ CHR ''-'' # (d # ds) @ u2"
    using u1 k r3 d ds u2 by simp
  moreover have "d # ds \<noteq> []" "list_all isDigit (d # ds)" using d ds by simp_all
  ultimately show ?thesis using u1(2) u2(2) k(2) by blast
qed

lemma trim_core:
  assumes "list_all isSpace u1" "list_all isSpace u2" "m \<noteq> []" "\<not> isSpace (hd m)" "\<not> isSpace (last m)"
  shows "trim (u1 @ m @ u2) = m"
proof -
  have "dropWhile isSpace (u1 @ m @ u2) = dropWhile isSpace (m @ u2)"
    using assms(1) by (simp add: list_all_iff)
  also have "\<dots> = m @ u2"
    using assms(3,4) by (cases m) simp_all
  finally have 1: "dropWhile isSpace (u1 @ m @ u2) = m @ u2" .
  have "dropWhile isSpace (rev (m @ u2)) = dropWhile isSpace (rev m)"
    using assms(2) dropWhile_append2[of "rev u2" isSpace "rev m"] by (simp add: list_all_iff)
  also have "\<dots> = rev m"
    using assms(3,5) by (cases m rule: rev_cases) simp_all
  finally show ?thesis by (simp add: trim_def 1)
qed

lemma upper_word:
  "map upperA k = map upperA key \<Longrightarrow> list_all isWord key \<Longrightarrow> list_all isWord k"
proof (induction k arbitrary: key)
  case Nil
  then show ?case by simp
next
  case (Cons c k)
  then obtain y ys where key: "key = y # ys" by (cases key) auto
  with Cons.prems have "upperA c = upperA y" "map upperA k = map upperA ys" "isWord y" "list_all isWord ys"
    by simp_all
  moreover from this have "isWord c" by (metis isWord_upperA)
  ultimately show ?case using Cons.IH[of ys] by simp
qed

lemma keyAt_space:
  assumes "list_all isWord key" "isSpace x"
  shows "keyAt key (x # rest) = None"
proof (cases key)
  case Nil
  with assms(2) show ?thesis using dash_not_space by (auto simp: keyAt_def split: list.splits)
next
  case (Cons y ys)
  have "isWord y" using assms(1) Cons by simp
  then have "upperA x \<noteq> upperA y"
    using assms(2) by (metis isWord_upperA word_not_space)
  then show ?thesis using Cons by (simp add: keyAt_def)
qed

lemma keyAt_exact:
  assumes "map upperA k = map upperA key" "ds \<noteq> []" "list_all isDigit ds" "list_all isSpace u2"
  shows "keyAt key (k @ CHR ''-'' # ds @ u2) = Some (k @ CHR ''-'' # ds)"
proof -
  have len: "length k = length key" using assms(1) by (metis length_map)
  obtain d ds' where ds: "ds = d # ds'" using assms(2) by (cases ds) auto
  have "takeWhile isDigit u2 = []"
    using assms(4) by (cases u2) (auto dest: space_not_digit)
  then have "takeWhile isDigit (ds' @ u2) = ds'"
    using assms(3) ds by (simp add: list_all_iff)
  then show ?thesis using len assms(1,3) ds by (simp add: keyAt_def)
qed

lemma firstKey_exact:
  assumes "list_all isWord key" "list_all isSpace u1" "map upperA k = map upperA key" "ds \<noteq> []"
    "list_all isDigit ds" "list_all isSpace u2"
  shows "firstKey key (u1 @ k @ CHR ''-'' # ds @ u2) = Some (k @ CHR ''-'' # ds)"
  using assms(2)
proof (induction u1)
  case Nil
  have "keyAt key (k @ CHR ''-'' # ds @ u2) = Some (k @ CHR ''-'' # ds)"
    using assms(3-6) by (rule keyAt_exact)
  then show ?case by (cases "k @ CHR ''-'' # ds @ u2") auto
next
  case (Cons x u1)
  then have "keyAt key (x # u1 @ k @ CHR ''-'' # ds @ u2) = None"
    using assms(1) by (simp add: keyAt_space)
  with Cons show ?case by simp
qed

lemma exact_trim:
  assumes "list_all isWord key" "test True (exactKeyRx key) query"
  shows "firstKey key query = Some (trim query)"
proof -
  from exact_shape[OF assms(2)] obtain u1 k ds u2 where
    q: "query = u1 @ k @ CHR ''-'' # ds @ u2" and u: "list_all isSpace u1" "list_all isSpace u2"
    and k: "map upperA k = map upperA key" and ds: "ds \<noteq> []" "list_all isDigit ds"
    by blast
  let ?m = "k @ CHR ''-'' # ds"
  have kw: "list_all isWord k" using k assms(1) by (rule upper_word)
  have h: "\<not> isSpace (hd ?m)"
    using kw dash_not_space by (cases k) (auto dest: word_not_space)
  have l: "\<not> isSpace (last ?m)"
    using ds by (auto simp: list_all_iff dest!: digit_not_space)
  have "trim (u1 @ ?m @ u2) = ?m"
    using u by (rule trim_core) (use h l in simp_all)
  moreover have "firstKey key (u1 @ k @ CHR ''-'' # ds @ u2) = Some ?m"
    using assms(1) u(1) k ds u(2) by (rule firstKey_exact)
  ultimately show ?thesis unfolding q by simp
qed

lemma token_has_dash:
  assumes "isKeyToken key tok"
  shows "CHR ''-'' \<in> set tok"
proof -
  from assms obtain ds where "drop (length key) tok = CHR ''-'' # ds"
    by (cases "drop (length key) tok") (auto simp: isKeyToken_def)
  then have "CHR ''-'' \<in> set (drop (length key) tok)" by simp
  then show ?thesis by (rule in_set_dropD)
qed

lemma keyAt_prefix:
  assumes "keyAt key r = Some t"
  shows "\<exists>rest. r = t @ rest"
proof -
  from assms obtain c d ds where
    dr: "drop (length key) r = c # d # ds"
    and t: "t = take (length key) r @ c # d # takeWhile isDigit ds"
    by (auto simp: keyAt_def split: if_splits list.splits)
  have "r = take (length key) r @ drop (length key) r" by simp
  also have "\<dots> = take (length key) r @ c # d # takeWhile isDigit ds @ dropWhile isDigit ds"
    unfolding dr by simp
  finally have "r = t @ dropWhile isDigit ds" unfolding t by simp
  then show ?thesis ..
qed

lemma keyAt_Nil: "keyAt key [] = None"
  by (simp add: keyAt_def)

lemma firstKey_sub: "firstKey key s = Some t \<Longrightarrow> \<exists>p r. s = p @ t @ r"
proof (induction s)
  case Nil
  then show ?case by simp
next
  case (Cons x xs)
  show ?case
  proof (cases "keyAt key (x # xs)")
    case None
    with Cons.prems have "firstKey key xs = Some t" by simp
    from Cons.IH[OF this] obtain p r where "xs = p @ t @ r" by blast
    then have "x # xs = (x # p) @ t @ r" by simp
    then show ?thesis by blast
  next
    case (Some u)
    with Cons.prems have "u = t" by simp
    with keyAt_prefix[OF Some] obtain rest where "x # xs = [] @ t @ rest" by auto
    then show ?thesis by blast
  qed
qed

lemma keyAt_whole_token:
  assumes "isKeyToken key tok" "post = [] \<or> \<not> isDigit (hd post)"
  shows "keyAt key (tok @ post) = Some tok"
proof -
  have len: "length key \<le> length tok" using assms(1) by (rule token_length)
  from assms(1) obtain d ds where dr: "drop (length key) tok = CHR ''-'' # d # ds"
    and d: "isDigit d" and ds: "list_all isDigit ds"
    by (cases "drop (length key) tok") (auto simp: isKeyToken_def neq_Nil_conv)
  from assms(1) have e: "map upperA (take (length key) tok) = map upperA key"
    by (simp add: isKeyToken_def)
  have p: "takeWhile isDigit post = []"
    using assms(2) by (cases post) auto
  have "takeWhile isDigit (ds @ post) = ds"
    using ds p by (simp add: list_all_iff takeWhile_append2)
  moreover have "take (length key) (tok @ post) = take (length key) tok"
    "drop (length key) (tok @ post) = CHR ''-'' # d # ds @ post"
    using len dr by simp_all
  ultimately have "keyAt key (tok @ post) = Some (take (length key) tok @ CHR ''-'' # d # ds)"
    using e d by (simp add: keyAt_def)
  moreover have "take (length key) tok @ CHR ''-'' # d # ds = tok"
    using dr by (metis append_take_drop_id)
  ultimately show ?thesis by simp
qed

lemma firstKey_skip:
  assumes "\<forall>i<length pre. keyAt key (drop i (pre @ r)) = None" "keyAt key r = Some t"
  shows "firstKey key (pre @ r) = Some t"
  using assms(1)
proof (induction pre)
  case Nil
  have "r \<noteq> []" using assms(2) by (auto simp: keyAt_Nil)
  then show ?case using assms(2) by (cases r) auto
next
  case (Cons a pre)
  from Cons.prems have 0: "keyAt key (a # pre @ r) = None" by force
  have "\<forall>i<length pre. keyAt key (drop i (pre @ r)) = None"
  proof (intro allI impI)
    fix i assume "i < length pre"
    then have "Suc i < length (a # pre)" by simp
    with Cons.prems have "keyAt key (drop (Suc i) ((a # pre) @ r)) = None" by blast
    then show "keyAt key (drop i (pre @ r)) = None" by simp
  qed
  from Cons.IH[OF this] show ?case using 0 by simp
qed

lemma list_all_upt: "list_all P [0..<n] = (\<forall>i<n. P i)"
  by (auto simp: list_all_iff)

lemma leftmost_scan:
  assumes "\<forall>pre' tok' post'. pre @ rest = pre' @ tok' @ post' \<and> isKeyToken key tok' \<longrightarrow> length pre \<le> length pre'"
  shows "\<forall>i<length pre. keyAt key (drop i (pre @ rest)) = None"
proof (intro allI impI)
  fix i assume i: "i < length pre"
  show "keyAt key (drop i (pre @ rest)) = None"
  proof (rule ccontr)
    assume "keyAt key (drop i (pre @ rest)) \<noteq> None"
    then obtain t where t: "keyAt key (drop i (pre @ rest)) = Some t" by auto
    from keyAt_prefix[OF t] obtain r where r: "drop i (pre @ rest) = t @ r" by blast
    have "pre @ rest = take i (pre @ rest) @ t @ r"
      using r by (metis append_take_drop_id)
    moreover have "isKeyToken key t" using t by (rule keyAt_token)
    ultimately have "length pre \<le> length (take i (pre @ rest))" using assms by blast
    then show False using i by simp
  qed
qed

lemma scan_leftmost:
  assumes "\<forall>i<length pre. keyAt key (drop i (pre @ rest)) = None"
  shows "\<forall>pre' tok' post'. pre @ rest = pre' @ tok' @ post' \<and> isKeyToken key tok' \<longrightarrow> length pre \<le> length pre'"
proof (intro allI impI)
  fix pre' tok' post'
  assume a: "pre @ rest = pre' @ tok' @ post' \<and> isKeyToken key tok'"
  show "length pre \<le> length pre'"
  proof (rule ccontr)
    assume "\<not> length pre \<le> length pre'"
    then have l: "length pre' < length pre" by simp
    have "drop (length pre') (pre' @ tok' @ post') = tok' @ post'" by simp
    then have "drop (length pre') (pre @ rest) = tok' @ post'" using a by metis
    moreover have "keyAt key (tok' @ post') \<noteq> None" using a by (simp add: keyAt_at_token)
    moreover have "keyAt key (drop (length pre') (pre @ rest)) = None" using assms l by blast
    ultimately show False by metis
  qed
qed

lemma generateJQL_first_key:
  assumes "list_all isWord key" and "firstKey key query = Some t"
  shows "generateJQL loadKey key reply query intent = keyEquals t"
proof -
  from firstKey_sub[OF assms(2)] obtain p r where q: "query = p @ t @ r" by blast
  have tok: "isKeyToken key t" using assms(2) by (rule firstKey_token)
  have dash: "CHR ''-'' \<in> set query"
    using q token_has_dash[OF tok] by simp
  have canon: "query \<noteq> ''show project status''" "query \<noteq> ''show project timeline''"
    "query \<noteq> ''show upcoming deadlines''" "query \<noteq> ''show project blockers''"
    "query \<noteq> ''show high risk items''" "query \<noteq> ''show team workload''"
    "query \<noteq> ''show open tasks''" "query \<noteq> ''show closed tasks''"
    "query \<noteq> ''show high priority tasks''" "query \<noteq> ''show unassigned tasks''"
    "query \<noteq> ''show recent updates''" "query \<noteq> ''show current sprint''"
    "query \<noteq> ''show most recently updated task''"
    using dash by auto
  have m: "match0 True (keyRx key) query = Some t" using assms(2) by (simp add: match0_key)
  show ?thesis
  proof (cases "test True (exactKeyRx key) query")
    case True
    then have "t = trim query" using exact_trim[OF assms(1)] assms(2) by simp
    then show ?thesis using True canon by (simp add: generateJQL_def)
  next
    case False
    then show ?thesis using m canon by (simp add: generateJQL_def)
  qed
qed

text \<open>
  C5, as stated: for every query text that contains a token matching the issue-key
  pattern, the synthesizer returns the key-equality query for that token. The text
  \<open>NIHK-1 NIHK-2\<close> contains the token \<open>NIHK-2\<close> and gives \<open>key = "NIHK-1"\<close>; the text
  \<open>see NIHK-427 today\<close> contains \<open>NIHK-42\<close> and gives \<open>key = "NIHK-427"\<close>.
\<close>

theorem generateJQL_issue_key_counterexample:
  \<open>isKeyToken ''NIHK'' ''NIHK-2''
   \<and> ''NIHK-1 NIHK-2'' = ''NIHK-1 '' @ ''NIHK-2'' @ []
   \<and> generateJQL ''NIHK'' ''NIHK'' None ''NIHK-1 NIHK-2'' ''GENERAL'' = ''key = "NIHK-1"''
   \<and> generateJQL ''NIHK'' ''NIHK'' None ''NIHK-1 NIHK-2'' ''GENERAL'' \<noteq> keyEquals ''NIHK-2''
   \<and> isKeyToken ''NIHK'' ''NIHK-42''
   \<and> ''see NIHK-427 today'' = ''see '' @ ''NIHK-42'' @ ''7 today''
   \<and> generateJQL ''NIHK'' ''NIHK'' None ''see NIHK-427 today'' ''GENERAL'' = ''key = "NIHK-427"''
   \<and> generateJQL ''NIHK'' ''NIHK'' None ''see NIHK-427 today'' ''GENERAL'' \<noteq> keyEquals ''NIHK-42''\<close>
  by code_simp

text \<open>
  C5, amended. For a project key made of word characters, every query text and every
  token of it that matches the issue-key pattern, is the leftmost such token of the
  text, and is not followed by a digit: for every intent and every reply of the
  generative model, the synthesizer returns the key-equality query for that token. On
  the text \<open>NIHK-42\<close> this is \<open>key = "NIHK-42"\<close>.
\<close>

theorem generateJQL_issue_key:
  assumes "list_all isWord key" and "query = pre @ tok @ post" and "isKeyToken key tok"
    and "\<forall>pre' tok' post'. query = pre' @ tok' @ post' \<and> isKeyToken key tok' \<longrightarrow> length pre \<le> length pre'"
    and "post = [] \<or> \<not> isDigit (hd post)"
  shows "generateJQL loadKey key reply query intent = keyEquals tok"
proof -
  have "\<forall>i<length pre. keyAt key (drop i (pre @ tok @ post)) = None"
    using assms(4) unfolding assms(2) by (rule leftmost_scan)
  moreover have "keyAt key (tok @ post) = Some tok"
    using assms(3,5) by (rule keyAt_whole_token)
  ultimately have "firstKey key query = Some tok"
    unfolding assms(2) by (rule firstKey_skip)
  with assms(1) show ?thesis by (rule generateJQL_first_key)
qed

theorem generateJQL_issue_key_witness:
  \<open>list_all isWord ''NIHK'' \<and> isKeyToken ''NIHK'' ''NIHK-42''
   \<and> (\<forall>loadKey reply intent. generateJQL loadKey ''NIHK'' reply ''NIHK-42'' intent = ''key = "NIHK-42"'')
   \<and> (\<forall>loadKey reply intent.
         generateJQL loadKey ''NIHK'' reply ''see NIHK-42 and NIHK-7'' intent = ''key = "NIHK-42"'')\<close>
proof -
  have w: "list_all isWord ''NIHK''" by code_simp
  have k: "isKeyToken ''NIHK'' ''NIHK-42''" by code_simp
  have q1: "''NIHK-42'' = [] @ ''NIHK-42'' @ []" by simp
  have l1: "\<forall>pre' tok' post'. ''NIHK-42'' = pre' @ tok' @ post' \<and> isKeyToken ''NIHK'' tok'
              \<longrightarrow> length ([] :: string) \<le> length pre'" by simp
  have p1: "([] :: string) = [] \<or> \<not> isDigit (hd [])" by simp
  have q2: "''see NIHK-42 and NIHK-7'' = ''see '' @ ''NIHK-42'' @ '' and NIHK-7''" by simp
  have "list_all (\<lambda>i. keyAt ''NIHK'' (drop i (''see '' @ ''NIHK-42 and NIHK-7'')) = None) [0..<length ''see '']"
    by code_simp
  then have "\<forall>i<length ''see ''. keyAt ''NIHK'' (drop i (''see '' @ ''NIHK-42 and NIHK-7'')) = None"
    by (simp only: list_all_upt)
  from scan_leftmost[OF this]
  have l2: "\<forall>pre' tok' post'. ''see NIHK-42 and NIHK-7'' = pre' @ tok' @ post' \<and> isKeyToken ''NIHK'' tok'
              \<longrightarrow> length ''see '' \<le> length pre'" by simp
  have p2: "'' and NIHK-7'' = [] \<or> \<not> isDigit (hd '' and NIHK-7'')" by code_simp
  have "generateJQL loadKey ''NIHK'' reply ''NIHK-42'' intent = keyEquals ''NIHK-42''" for loadKey reply intent
    using generateJQL_issue_key[OF w q1 k l1 p1] .
  moreover have "generateJQL loadKey ''NIHK'' reply ''see NIHK-42 and NIHK-7'' intent = keyEquals ''NIHK-42''"
    for loadKey reply intent
    using generateJQL_issue_key[OF w q2 k l2 p2] .
  ultimately show ?thesis using w k by (simp add: keyEquals_def)
qed

section \<open>Properties of the rich-document extractor\<close>

text \<open>
  C10. For every argument that is \<open>null\<close> or \<open>undefined\<close>, or that has no \<open>content\<close>
  field, or whose \<open>content\<close> field is not an array, \<open>extractTextFromADF\<close> returns the
  empty string and does not throw.
\<close>

theorem extractTextFromADF_guard:
  assumes "adf = Null \<or> adf = Undefined \<or> getProp adf ''content'' = Inr Undefined
           \<or> (\<exists>c. getProp adf ''content'' = Inr c \<and> \<not> isArray c)"
  shows "extractTextFromADF adf = Inr []"
proof -
  from assms consider "\<not> truthy adf" | c where "getProp adf ''content'' = Inr c" "\<not> isArray c"
    by auto
  then show ?thesis
  proof cases
    case 1
    then show ?thesis by (simp add: extractTextFromADF_def)
  next
    case 2
    then show ?thesis by (simp add: extractTextFromADF_def)
  qed
qed

theorem extractTextFromADF_guard_witness:
  \<open>getProp (Obj [(''type'', Str ''doc'')]) ''content'' = Inr Undefined
   \<and> extractTextFromADF (Obj [(''type'', Str ''doc'')]) = Inr []
   \<and> extractTextFromADF Null = Inr []
   \<and> extractTextFromADF (Obj [(''content'', Str ''text'')]) = Inr []\<close>
proof -
  have 1: "getProp (Obj [(''type'', Str ''doc'')]) ''content'' = Inr Undefined" by simp
  have 2: "\<exists>c. getProp (Obj [(''content'', Str ''text'')]) ''content'' = Inr c \<and> \<not> isArray c" by simp
  show ?thesis
    using 1 extractTextFromADF_guard[of "Obj [(''type'', Str ''doc'')]"]
      extractTextFromADF_guard[of Null]
      extractTextFromADF_guard[of "Obj [(''content'', Str ''text'')]"] 2
    by blast
qed

section \<open>Properties of the intent classifier\<close>

text \<open>
  C6, as stated: for every query text the classifier returns a member of the closed
  enumeration. When no rule matches and the generative model answers \<open>banana\<close>, the
  classifier returns \<open>banana\<close>.
\<close>

theorem analyzeQueryIntent_counterexample:
  \<open>analyzeQueryIntent ''NIHK'' (Some ''banana'') ''xyz'' \<notin> set intentNames\<close>
  by code_simp

lemma keywordIntent_names: "keywordIntent query \<in> set intentNames"
proof (cases "find (\<lambda>rule. test True (fst rule) query) fallbackKeywords")
  case None
  then show ?thesis by (simp add: keywordIntent_def intentNames_def)
next
  case (Some rule)
  then have "rule \<in> set fallbackKeywords" by (auto simp: find_Some_iff)
  then have "snd rule \<in> set intentNames" by (auto simp: fallbackKeywords_def intentNames_def)
  then show ?thesis using Some by (simp add: keywordIntent_def)
qed

lemma directIntent_names: "directIntent key query = Some intent \<Longrightarrow> intent \<in> set intentNames"
  by (auto simp: directIntent_def intentNames_def split: if_splits)

text \<open>
  C6, amended: the classifier is total. Where a rule at its head applies, it returns the
  intent of that rule, a member of the closed enumeration, whatever the generative model
  does. Where no rule applies and the generative call succeeds, it returns the answer of
  the model, trimmed, which it does not check. Where the generative call fails it
  returns a member of the closed enumeration for every query text: where no rule
  applies, the intent of the first fallback keyword that the text matches, and
  \<open>GENERAL\<close> when the text matches no fallback keyword.
\<close>

theorem analyzeQueryIntent_total:
  \<open>(directIntent key query = Some intent \<longrightarrow>
        analyzeQueryIntent key reply query = intent \<and> intent \<in> set intentNames)
   \<and> (directIntent key query = None \<longrightarrow>
        analyzeQueryIntent key (Some content) query = trim content)
   \<and> analyzeQueryIntent key None query \<in> set intentNames
   \<and> (directIntent key query = None \<longrightarrow>
        (\<forall>rule \<in> set fallbackKeywords.
            test True (fst rule) query
            \<and> list_all (\<lambda>earlier. \<not> test True (fst earlier) query) (takeWhile (\<lambda>r. r \<noteq> rule) fallbackKeywords)
            \<longrightarrow> analyzeQueryIntent key None query = snd rule))
   \<and> (directIntent key query = None \<and> list_all (\<lambda>rule. \<not> test True (fst rule) query) fallbackKeywords \<longrightarrow>
        analyzeQueryIntent key None query = ''GENERAL'')\<close>
proof -
  have 1: "directIntent key query = Some intent \<longrightarrow>
        analyzeQueryIntent key reply query = intent \<and> intent \<in> set intentNames"
    by (simp add: analyzeQueryIntent_def directIntent_names)
  have 2: "directIntent key query = None \<longrightarrow> analyzeQueryIntent key (Some content) query = trim content"
    by (simp add: analyzeQueryIntent_def)
  have 3: "analyzeQueryIntent key None query \<in> set intentNames"
    by (cases "directIntent key query")
       (simp_all add: analyzeQueryIntent_def keywordIntent_names directIntent_names)
  have first: "find P xs = Some x"
    if "x \<in> set xs" "P x" "list_all (\<lambda>y. \<not> P y) (takeWhile (\<lambda>r. r \<noteq> x) xs)"
    for P :: "rx \<times> string \<Rightarrow> bool" and xs x
    using that by (induction xs) (auto split: if_splits)
  have 4: "directIntent key query = None \<longrightarrow>
        (\<forall>rule \<in> set fallbackKeywords.
            test True (fst rule) query
            \<and> list_all (\<lambda>earlier. \<not> test True (fst earlier) query) (takeWhile (\<lambda>r. r \<noteq> rule) fallbackKeywords)
            \<longrightarrow> analyzeQueryIntent key None query = snd rule)"
    using first[of _ fallbackKeywords "\<lambda>rule. test True (fst rule) query"]
    by (auto simp: analyzeQueryIntent_def keywordIntent_def)
  have none: "find P xs = None" if "list_all (\<lambda>y. \<not> P y) xs" for P :: "rx \<times> string \<Rightarrow> bool" and xs
    using that by (induction xs) auto
  have 5: "directIntent key query = None \<and> list_all (\<lambda>rule. \<not> test True (fst rule) query) fallbackKeywords \<longrightarrow>
        analyzeQueryIntent key None query = ''GENERAL''"
    using none[of "\<lambda>rule. test True (fst rule) query" fallbackKeywords]
    by (auto simp: analyzeQueryIntent_def keywordIntent_def)
  from 1 2 3 4 5 show ?thesis by blast
qed

theorem analyzeQueryIntent_total_witness:
  \<open>directIntent ''NIHK'' ''xyz'' = None
   \<and> list_all (\<lambda>rule. \<not> test True (fst rule) ''xyz'') fallbackKeywords
   \<and> analyzeQueryIntent ''NIHK'' None ''xyz'' = ''GENERAL''
   \<and> analyzeQueryIntent ''NIHK'' (Some '' banana '') ''xyz'' = ''banana''
   \<and> directIntent ''NIHK'' ''any progress'' = None
   \<and> analyzeQueryIntent ''NIHK'' None ''any progress'' = ''PROJECT_STATUS''
   \<and> directIntent ''NIHK'' ''what is stuck'' = Some ''BLOCKERS''
   \<and> analyzeQueryIntent ''NIHK'' (Some ''banana'') ''what is stuck'' = ''BLOCKERS''\<close>
proof -
  have d: "directIntent ''NIHK'' ''xyz'' = None" by code_simp
  have n: "list_all (\<lambda>rule. \<not> test True (fst rule) ''xyz'') fallbackKeywords" by code_simp
  have t: "trim '' banana '' = ''banana''" by code_simp
  have d2: "directIntent ''NIHK'' ''any progress'' = None" by code_simp
  let ?rule = "(Lits [''status'', ''progress'', ''update'', ''how is'', ''how's'', ''overview''], ''PROJECT_STATUS'')"
  have r: "?rule \<in> set fallbackKeywords" by (simp add: fallbackKeywords_def)
  have m: "test True (fst ?rule) ''any progress''" by code_simp
  have e: "list_all (\<lambda>earlier. \<not> test True (fst earlier) ''any progress'')
             (takeWhile (\<lambda>r. r \<noteq> ?rule) fallbackKeywords)" by code_simp
  have d3: "directIntent ''NIHK'' ''what is stuck'' = Some ''BLOCKERS''" by code_simp
  from analyzeQueryIntent_total[of "''NIHK''" "''xyz''" "''GENERAL''" None "'' banana ''"] d n t
  have 1: "analyzeQueryIntent ''NIHK'' None ''xyz'' = ''GENERAL''
           \<and> analyzeQueryIntent ''NIHK'' (Some '' banana '') ''xyz'' = ''banana''"
    by simp
  from analyzeQueryIntent_total[of "''NIHK''" "''any progress''" "''GENERAL''" None "[]"] d2
  have "\<forall>rule \<in> set fallbackKeywords.
          test True (fst rule) ''any progress''
          \<and> list_all (\<lambda>earlier. \<not> test True (fst earlier) ''any progress'')
               (takeWhile (\<lambda>r. r \<noteq> rule) fallbackKeywords)
          \<longrightarrow> analyzeQueryIntent ''NIHK'' None ''any progress'' = snd rule"
    by blast
  with r m e have 2: "analyzeQueryIntent ''NIHK'' None ''any progress'' = ''PROJECT_STATUS''"
    by fastforce
  from analyzeQueryIntent_total[of "''NIHK''" "''what is stuck''" "''BLOCKERS''" "Some ''banana''" "[]"] d3
  have 3: "analyzeQueryIntent ''NIHK'' (Some ''banana'') ''what is stuck'' = ''BLOCKERS''"
    by blast
  show ?thesis using d n 1 d2 2 d3 3 by blast
qed

section \<open>Properties of the normalizer\<close>

lemma punctuation_ends:
  "ends False punctuation (pre, rest) =
     (case rest of [] \<Rightarrow> [] | x # xs \<Rightarrow> if x \<in> set ''.,!?;'' then [(x # pre, xs)] else [])"
  by (simp add: punctuation_def split: list.split)

lemma replace_punctuation_aux:
  "replaceAll (whole False punctuation (\<lambda>_. [])) (pre, s) = filter (\<lambda>c. c \<notin> set ''.,!?;'') s"
proof (induction s arbitrary: pre)
  case Nil
  show ?case by (subst replaceAll.simps) (simp add: whole_def punctuation_ends)
next
  case (Cons c cs)
  show ?case
    by (subst replaceAll.simps) (simp add: whole_def punctuation_ends Cons del: set_simps)
qed

text \<open>
  C9, as stated: when no pattern matches, the interior of the text is preserved. No
  pattern matches \<open>hello, world\<close>, and the normalizer removes its comma.
\<close>

theorem preprocessQuery_counterexample:
  \<open>standardize ''NIHK'' ''hello, world'' = None
   \<and> preprocessQuery ''NIHK'' ''hello, world'' = ''hello world''\<close>
  by code_simp

text \<open>
  C9, amended: for every input that matches none of the phrasing patterns, the
  normalizer returns the trimmed input in lower case with every occurrence of the
  characters \<open>. , ! ? ;\<close> removed, at the end and inside, and the result trimmed again.
\<close>

theorem preprocessQuery_no_pattern:
  assumes \<open>standardize key (toLowerCase (trim query)) = None\<close>
  shows \<open>preprocessQuery key query = trim (filter (\<lambda>c. c \<notin> set ''.,!?;'') (toLowerCase (trim query)))\<close>
  using assms by (simp add: preprocessQuery_def replace_def replace_punctuation_aux)

theorem preprocessQuery_no_pattern_witness:
  \<open>standardize ''NIHK'' (toLowerCase (trim '' Hello, world! '')) = None
   \<and> preprocessQuery ''NIHK'' '' Hello, world! '' = ''hello world''\<close>
proof -
  have h: \<open>standardize ''NIHK'' (toLowerCase (trim '' Hello, world! '')) = None\<close>
    by code_simp
  have \<open>trim (filter (\<lambda>c. c \<notin> set ''.,!?;'') (toLowerCase (trim '' Hello, world! ''))) = ''hello world''\<close>
    by code_simp
  with preprocessQuery_no_pattern[OF h] h show ?thesis by simp
qed

section \<open>Properties of the query endpoint\<close>

text \<open>
  C1. The claim is that every request with a non-empty query is answered with a rendered
  message. A request whose session identifier is a name that \<open>Object.prototype\<close> defines
  meets a truthy value that is not a session: the \<open>push\<close> on its missing \<open>queries\<close>
  throws before the \<open>try\<close> block, for every environment and every project key, and the
  handler writes no response.
\<close>

theorem handleQuery_inherited_name_rejected:
  \<open>handleQuery loadKey key e \<lparr>body_query = ''hello'', body_sessionId = Some ''constructor''\<rparr> Map.empty
     = (Map.empty, Rejected)\<close>
  by (simp add: handleQuery_def sessionIdOf_def lookupSession_def objectPrototypeNames_def)

text \<open>
  C7. If the first search throws and the search with the safe template of the intent
  returns a result set, then exactly two searches are sent, the first query and the safe
  template; the data that the later steps use is the result set of the second search;
  the note is recorded; and the reply has status 200, carries that result set, and its
  message is the note, an empty line, and the rendered text. The safe template is the
  one of the table of the intents: the project-status template for \<open>PROJECT_STATUS\<close>,
  the timeline template for \<open>TIMELINE\<close>, the high-priority template for \<open>BLOCKERS\<close> and
  \<open>HIGH_PRIORITY\<close>, the open-tasks and closed-tasks templates for \<open>TASK_LIST\<close> when the
  query text has one of their words, the assigned-tasks template for \<open>ASSIGNED_TASKS\<close>
  and \<open>WORKLOAD\<close>, the sprint template for \<open>SPRINT\<close>, each with the project key of the
  moment the module was loaded, and otherwise the query of the recent updates with the
  project key of the moment of the request.
\<close>

theorem retry_once_with_note:
  assumes \<open>firstSearch e jql (maxResultsFor intent) (fieldsFor intent) = SearchFailed\<close>
    and \<open>safe =
      (if intent = ''PROJECT_STATUS'' then ''project = '' @ loadKey @ '' ORDER BY updated DESC''
       else if intent = ''TIMELINE''
       then ''project = '' @ loadKey @ '' AND duedate IS NOT EMPTY ORDER BY duedate ASC''
       else if intent = ''BLOCKERS'' \<or> intent = ''HIGH_PRIORITY''
       then ''project = '' @ loadKey
            @ '' AND priority in ("High", "Highest") AND status not in ("Done", "Closed", "Resolved")''
       else if intent = ''TASK_LIST'' \<and> test True (Lits [''open'', ''active'']) query
       then ''project = '' @ loadKey @ '' AND status in ("Open", "In Progress", "To Do", "Reopened")''
       else if intent = ''TASK_LIST'' \<and> test True (Lits [''closed'', ''done'', ''completed'']) query
       then ''project = '' @ loadKey @ '' AND status in ("Done", "Closed", "Resolved")''
       else if intent = ''ASSIGNED_TASKS'' \<or> intent = ''WORKLOAD''
       then ''project = '' @ loadKey
            @ '' AND assignee IS NOT EMPTY AND status not in ("Done", "Closed", "Resolved")''
       else if intent = ''SPRINT'' then ''project = '' @ loadKey @ '' AND sprint in openSprints()''
       else ''project = '' @ key @ '' ORDER BY updated DESC'')\<close>
    and \<open>retrySearch e safe (maxResultsFor intent) (fieldsFor intent) = SearchData (Some issues)\<close>
  shows \<open>executeSearch loadKey key e query intent jql sess
           = ([jql, safe], sess\<lparr>noteText := Some recoveryNote\<rparr>, Some (Some issues))
         \<and> fst (searchAndRender loadKey key e query intent jql sess) = [jql, safe]
         \<and> snd (snd (searchAndRender loadKey key e query intent jql sess))
             = Responded \<lparr>status = 200,
                  message = recoveryNote @ ''\<newline>\<newline>''
                    @ (case renderer e query issues intent of Some baseResponse \<Rightarrow> baseResponse
                       | None \<Rightarrow> directList issues),
                  rawData = Some (Some issues)\<rparr>\<close>
proof -
  have s: \<open>simplifiedJQL loadKey key intent query = safe\<close>
    unfolding assms(2)
    by (simp add: simplifiedJQL_def PROJECT_STATUS_def TIMELINE_def HIGH_PRIORITY_def OPEN_TASKS_def
          CLOSED_TASKS_def ASSIGNED_TASKS_def CURRENT_SPRINT_def)
  have x: \<open>executeSearch loadKey key e query intent jql sess
           = ([jql, safe], sess\<lparr>noteText := Some recoveryNote\<rparr>, Some (Some issues))\<close>
    using assms(1,3) by (simp add: executeSearch_def s)
  have n: \<open>orElse (Some recoveryNote) [] = recoveryNote\<close> \<open>recoveryNote \<noteq> []\<close>
    by (simp_all add: orElse_def recoveryNote_def)
  show ?thesis
    using x n
    by (simp add: searchAndRender_def renderReply_def generateResponse_def split: option.splits)
qed

theorem retry_once_with_note_witness:
  \<open>(let e = \<lparr>classifyReply = None, synthReply = None, mostRecentTask = None, statusOverview = None,
               projectTimeline = None, teamWorkload = None, sprintView = SprintError, issueView = None,
               recentSearch = SearchFailed, renderer = (\<lambda>_ _ _. None),
               firstSearch = (\<lambda>_ _ _. SearchFailed),
               retrySearch = (\<lambda>q _ _.
                  if q = ''project = NIHK AND priority in ("High", "Highest") AND status not in ("Done", "Closed", "Resolved")''
                  then SearchData (Some [\<lparr>ikey = ''NIHK-1'', summary = ''Fix login'',
                                statusName = Some ''Open'', assigneeName = None\<rparr>])
                  else SearchFailed),
               basicSearch = SearchFailed, draw = 0\<rparr>
     in firstSearch e ''status = Open'' (maxResultsFor ''BLOCKERS'') (fieldsFor ''BLOCKERS'') = SearchFailed
        \<and> fst (searchAndRender ''NIHK'' ''NIHK'' e ''what is stuck'' ''BLOCKERS'' ''status = Open'' emptySession)
            = [''status = Open'',
               ''project = NIHK AND priority in ("High", "Highest") AND status not in ("Done", "Closed", "Resolved")'']
        \<and> snd (snd (searchAndRender ''NIHK'' ''NIHK'' e ''what is stuck'' ''BLOCKERS'' ''status = Open'' emptySession))
            = Responded \<lparr>status = 200,
                message = ''I've found some information that might help with your question:\<newline>\<newline>Here are 1 recent items:\<newline>\<newline>''
                   @ bullet @ '' NIHK-1: Fix login (Open, Assigned to: Unassigned)\<newline>'',
                rawData = Some (Some [\<lparr>ikey = ''NIHK-1'', summary = ''Fix login'',
                                statusName = Some ''Open'', assigneeName = None\<rparr>])\<rparr>)\<close>
proof -
  let ?i = \<open>\<lparr>ikey = ''NIHK-1'', summary = ''Fix login'', statusName = Some ''Open'', assigneeName = None\<rparr>\<close>
  let ?t = \<open>''project = NIHK AND priority in ("High", "Highest") AND status not in ("Done", "Closed", "Resolved")''\<close>
  let ?e = \<open>\<lparr>classifyReply = None, synthReply = None, mostRecentTask = None, statusOverview = None,
               projectTimeline = None, teamWorkload = None, sprintView = SprintError, issueView = None,
               recentSearch = SearchFailed, renderer = (\<lambda>_ _ _. None),
               firstSearch = (\<lambda>_ _ _. SearchFailed),
               retrySearch = (\<lambda>q _ _. if q = ?t then SearchData (Some [?i]) else SearchFailed),
               basicSearch = SearchFailed, draw = 0\<rparr>\<close>
  have f: \<open>firstSearch ?e ''status = Open'' (maxResultsFor ''BLOCKERS'') (fieldsFor ''BLOCKERS'') = SearchFailed\<close>
    by simp
  have t: \<open>?t =
      (if ''BLOCKERS'' = ''PROJECT_STATUS'' then ''project = '' @ ''NIHK'' @ '' ORDER BY updated DESC''
       else if ''BLOCKERS'' = ''TIMELINE''
       then ''project = '' @ ''NIHK'' @ '' AND duedate IS NOT EMPTY ORDER BY duedate ASC''
       else if ''BLOCKERS'' = ''BLOCKERS'' \<or> ''BLOCKERS'' = ''HIGH_PRIORITY''
       then ''project = '' @ ''NIHK''
            @ '' AND priority in ("High", "Highest") AND status not in ("Done", "Closed", "Resolved")''
       else if ''BLOCKERS'' = ''TASK_LIST'' \<and> test True (Lits [''open'', ''active'']) ''what is stuck''
       then ''project = '' @ ''NIHK'' @ '' AND status in ("Open", "In Progress", "To Do", "Reopened")''
       else if ''BLOCKERS'' = ''TASK_LIST'' \<and> test True (Lits [''closed'', ''done'', ''completed'']) ''what is stuck''
       then ''project = '' @ ''NIHK'' @ '' AND status in ("Done", "Closed", "Resolved")''
       else if ''BLOCKERS'' = ''ASSIGNED_TASKS'' \<or> ''BLOCKERS'' = ''WORKLOAD''
       then ''project = '' @ ''NIHK''
            @ '' AND assignee IS NOT EMPTY AND status not in ("Done", "Closed", "Resolved")''
       else if ''BLOCKERS'' = ''SPRINT'' then ''project = '' @ ''NIHK'' @ '' AND sprint in openSprints()''
       else ''project = '' @ ''NIHK'' @ '' ORDER BY updated DESC'')\<close>
    by simp
  have r: \<open>retrySearch ?e ?t (maxResultsFor ''BLOCKERS'') (fieldsFor ''BLOCKERS'') = SearchData (Some [?i])\<close>
    by simp
  have d: \<open>directList [?i] = ''Here are 1 recent items:\<newline>\<newline>'' @ bullet
             @ '' NIHK-1: Fix login (Open, Assigned to: Unassigned)\<newline>''\<close>
    by code_simp
  show ?thesis
    using retry_once_with_note[OF f t r, of emptySession] f
    by (simp add: d Let_def recoveryNote_def)
qed

lemma simplifiedJQL_load_time_key:
  \<open>simplifiedJQL ''undefined'' ''NIHK'' ''SPRINT'' query = ''project = undefined AND sprint in openSprints()''
   \<and> simplifiedJQL ''undefined'' ''NIHK'' ''GENERAL'' query = ''project = NIHK ORDER BY updated DESC''\<close>
  by (simp add: simplifiedJQL_def CURRENT_SPRINT_def)
















section \<open>The requests that are answered\<close>

text \<open>
  Every other request with a non-empty query is answered with status 200: the synthesizer
  never returns the empty string, so the reply with status 400 inside the \<open>try\<close> block
  is not reached, and every throw inside the block ends in the outer \<open>catch\<close>.
\<close>

lemma replaceAll_nonempty:
  assumes "rest \<noteq> []" and "\<And>p out q. (out, q) \<in> set (m p) \<Longrightarrow> out \<noteq> []"
  shows "replaceAll m (pre, rest) \<noteq> []"
proof (cases "m (pre, rest)")
  case Nil
  then show ?thesis using assms(1) by (subst replaceAll.simps) (simp split: list.split)
next
  case (Cons a as)
  obtain out q where a: "a = (out, q)" by (cases a)
  have "out \<noteq> []" using assms(2)[of out q "(pre, rest)"] Cons a by simp
  then show ?thesis using Cons a by (subst replaceAll.simps) simp
qed

lemma replace_nonempty: "s \<noteq> [] \<Longrightarrow> out \<noteq> [] \<Longrightarrow> replace ci r out s \<noteq> []"
  unfolding replace_def by (rule replaceAll_nonempty) (auto simp: whole_def)

lemma quoteValues_nonempty: "s \<noteq> [] \<Longrightarrow> quoteValues s \<noteq> []"
  unfolding quoteValues_def by (rule replaceAll_nonempty) (auto simp: fieldValue_def)

lemma quoteReserved_nonempty: "s \<noteq> [] \<Longrightarrow> quoteReserved s \<noteq> []"
proof -
  have "s \<noteq> [] \<Longrightarrow> foldl (\<lambda>acc word. replace True (reservedRx word) (CHR 0x22 # word @ [CHR 0x22]) acc) s ws \<noteq> []"
    for ws
    by (induction ws arbitrary: s) (simp_all add: replace_nonempty)
  then show "s \<noteq> [] \<Longrightarrow> quoteReserved s \<noteq> []"
    by (simp add: quoteReserved_def)
qed

lemma sanitizeJQL_nonempty: "sanitizeJQL key jql \<noteq> []"
proof (cases "jql = []")
  case True
  then show ?thesis by (simp add: sanitizeJQL_def)
next
  case False
  then have "fixCommas jql \<noteq> []" by (simp add: fixCommas_def replace_nonempty)
  then have "addProject key (fixCommas jql) \<noteq> []" by (simp add: addProject_def)
  then have "fixEmpty (addProject key (fixCommas jql)) \<noteq> []" by (simp add: fixEmpty_def replace_nonempty)
  then show ?thesis using False by (simp add: sanitizeJQL_def quoteValues_nonempty quoteReserved_nonempty)
qed

lemma templates_nonempty:
  "PROJECT_STATUS key \<noteq> []" "TIMELINE key \<noteq> []" "TIMELINE_UPCOMING key \<noteq> []" "BLOCKERS key \<noteq> []"
  "HIGH_PRIORITY key \<noteq> []" "OPEN_TASKS key \<noteq> []" "CLOSED_TASKS key \<noteq> []" "ASSIGNED_TASKS key \<noteq> []"
  "UNASSIGNED_TASKS key \<noteq> []" "RECENT_UPDATES key \<noteq> []" "CURRENT_SPRINT key \<noteq> []"
  "MOST_RECENT_TASK key \<noteq> []"
  by (simp_all add: PROJECT_STATUS_def TIMELINE_def TIMELINE_UPCOMING_def BLOCKERS_def HIGH_PRIORITY_def
      OPEN_TASKS_def CLOSED_TASKS_def ASSIGNED_TASKS_def UNASSIGNED_TASKS_def RECENT_UPDATES_def
      CURRENT_SPRINT_def MOST_RECENT_TASK_def)

lemma fallbackGenerateJQL_nonempty: "fallbackGenerateJQL loadKey query intent \<noteq> []"
  by (simp add: fallbackGenerateJQL_def Let_def templates_nonempty)

lemma generateJQL_nonempty: "generateJQL loadKey key reply query intent \<noteq> []"
  by (simp add: generateJQL_def templates_nonempty sanitizeJQL_nonempty fallbackGenerateJQL_nonempty
      keyEquals_def split: option.split)

lemma lastResort_ok: "status (lastResort e) = 200"
  by (simp add: lastResort_def ok_def split: searchResult.split option.split)

lemma stored_ok: "snd (stored s m) = Responded r \<Longrightarrow> status r = 200"
  by (auto simp: stored_def ok_def)

lemma searchAndRender_ok:
  "snd (snd (searchAndRender loadKey key e query intent jql s)) = Responded r \<Longrightarrow> status r = 200"
  by (auto simp: searchAndRender_def split: prod.splits option.splits)

lemma afterIntent_ok:
  assumes "snd (afterIntent loadKey key e query intent s) = Responded r"
  shows "status r = 200"
proof -
  let ?v = "if test True (keyRx key) query then issueView e else None"
  let ?jql = "generateJQL loadKey key (synthReply e) query intent"
  show ?thesis
  proof (cases ?v)
    case (Some m)
    have "afterIntent loadKey key e query intent s = stored s m"
      unfolding afterIntent_def Some by simp
    then show ?thesis using assms by (simp add: stored_ok)
  next
    case None
    show ?thesis
    proof (cases "intent = ''CONVERSATION''")
      case True
      have "\<exists>m. afterIntent loadKey key e query intent s = stored s m"
        unfolding afterIntent_def None using True
        by (auto split: searchResult.split option.split)
      then show ?thesis using assms by (auto simp: stored_ok)
    next
      case False
      have "afterIntent loadKey key e query intent s = snd (searchAndRender loadKey key e query intent ?jql s)"
        unfolding afterIntent_def None using False generateJQL_nonempty[of loadKey key "synthReply e" query intent]
        by (simp add: Let_def)
      then show ?thesis using assms searchAndRender_ok[of loadKey key e query intent ?jql s r] by simp
    qed
  qed
qed

lemma tryBlock_ok:
  assumes "snd (tryBlock loadKey key e query s) = Responded r"
  shows "status r = 200"
proof -
  let ?q = "preprocessQuery key query"
  let ?i = "analyzeQueryIntent key (classifyReply e) ?q"
  let ?s1 = "s\<lparr>intents := pushHistory (intents s) ?i\<rparr>"
  let ?v1 = "if ?q = ''show most recently updated task'' then mostRecentTask e else None"
  let ?v2 = "if ?q = ''show project status'' then statusOverview e else None"
  let ?v3 = "if ?q = ''show project timeline'' \<or> ?q = ''show upcoming deadlines'' then projectTimeline e else None"
  let ?v4 = "if ?q = ''show team workload'' then teamWorkload e else None"
  let ?sp = "if ?i = ''SPRINT'' then sprintView e else SprintError"
  consider (a) m where "?v1 = Some m"
    | (b) m where "?v1 = None" "?v2 = Some m"
    | (c) m where "?v1 = None" "?v2 = None" "?v3 = Some m"
    | (d) m where "?v1 = None" "?v2 = None" "?v3 = None" "?v4 = Some m"
    | (e) "?v1 = None" "?v2 = None" "?v3 = None" "?v4 = None"
    by (cases ?v1; cases ?v2; cases ?v3; cases ?v4) blast+
  then show ?thesis
  proof cases
    case a
    have "tryBlock loadKey key e query s = stored s m"
      unfolding tryBlock_def Let_def a by simp
    then show ?thesis using assms by (simp add: stored_ok)
  next
    case b
    have "tryBlock loadKey key e query s = stored s m"
      unfolding tryBlock_def Let_def b by simp
    then show ?thesis using assms by (simp add: stored_ok)
  next
    case c
    have "tryBlock loadKey key e query s = stored s m"
      unfolding tryBlock_def Let_def c by simp
    then show ?thesis using assms by (simp add: stored_ok)
  next
    case d
    have "tryBlock loadKey key e query s = stored s m"
      unfolding tryBlock_def Let_def d by simp
    then show ?thesis using assms by (simp add: stored_ok)
  next
    case e
    have t: "tryBlock loadKey key e query s =
        (if ?i = ''GREETING'' then stored ?s1 (pick greetingResponses (draw e))
         else (case ?sp of
                 SprintReply m \<Rightarrow> stored ?s1 m
               | SprintFallbackReply m \<Rightarrow> (?s1, Responded (ok m))
               | SprintError \<Rightarrow> afterIntent loadKey key e ?q ?i ?s1))"
      unfolding tryBlock_def Let_def e by simp
    show ?thesis
    proof (cases "?i = ''GREETING''")
      case True
      then show ?thesis using assms unfolding t by (simp add: stored_ok)
    next
      case False
      show ?thesis
      proof (cases ?sp)
        case (SprintReply m)
        then show ?thesis using assms False unfolding t by (simp add: stored_ok)
      next
        case (SprintFallbackReply m)
        then show ?thesis using assms False unfolding t by (auto simp: ok_def)
      next
        case SprintError
        then show ?thesis using assms False unfolding t by (simp add: afterIntent_ok)
      qed
    qed
  qed
qed

lemma handleQuery_answers:
  assumes "body_query req \<noteq> []" and "lookupSession mem (sessionIdOf req) \<noteq> Inherited"
  shows "\<exists>r. snd (handleQuery loadKey key e req mem) = Sent r \<and> status r = 200"
proof -
  define s0 where "s0 = (case lookupSession mem (sessionIdOf req) of Own s \<Rightarrow> s | _ \<Rightarrow> emptySession)"
  define s1 where "s1 = s0\<lparr>queries := pushHistory (queries s0) (body_query req)\<rparr>"
  obtain s2 out where t: "tryBlock loadKey key e (body_query req) s1 = (s2, out)"
    by (cases "tryBlock loadKey key e (body_query req) s1") auto
  show ?thesis
  proof (cases out)
    case (Responded r)
    then have "status r = 200" using tryBlock_ok[of loadKey key e "body_query req" s1 r] t by simp
    moreover have "snd (handleQuery loadKey key e req mem) = Sent r"
      using assms t Responded unfolding s1_def s0_def
      by (simp add: handleQuery_def Let_def split: slot.splits)
    ultimately show ?thesis by blast
  next
    case Thrown
    have "snd (handleQuery loadKey key e req mem) = Sent (lastResort e)"
      using assms t Thrown unfolding s1_def s0_def
      by (simp add: handleQuery_def Let_def split: slot.splits)
    then show ?thesis using lastResort_ok by blast
  qed
qed

lemma pick_mem: "pool \<noteq> [] \<Longrightarrow> pick pool d \<in> set pool"
  by (simp add: pick_def)

lemma lastResort_friendly:
  "basicSearch e = SearchFailed \<Longrightarrow> message (lastResort e) \<in> set friendlyResponses"
proof -
  have "friendlyResponses \<noteq> []" by (simp add: friendlyResponses_def)
  then have "pick friendlyResponses (draw e) \<in> set friendlyResponses" by (rule pick_mem)
  then show "basicSearch e = SearchFailed \<Longrightarrow> message (lastResort e) \<in> set friendlyResponses"
    by (simp add: lastResort_def ok_def)
qed

end
